theory Spec2Isabelle
  imports Complex_Main
begin

section \<open>Exceptions\<close>

text \<open>
  The exceptions that cross the functions of \<^verbatim>\<open>agora/client/client.py\<close>. The classes
  imported from \<^verbatim>\<open>agora.error\<close> all derive from \<^verbatim>\<open>Error\<close>; \<^verbatim>\<open>ValueError\<close> and
  \<^verbatim>\<open>IndexError\<close> are Python built-ins and \<^verbatim>\<open>RpcError\<close> is gRPC's, none of them an
  \<^verbatim>\<open>Error\<close>. A raise is the \<open>Inl\<close> branch of a sum.
\<close>

datatype exn =
    Error string
  | AccountExistsError
  | TransactionMalformedError
  | SenderDoesNotExistError
  | DestinationDoesNotExistError
  | InsufficientBalanceError
  | InsufficientFeeError
  | BadNonceError
  | TransactionRejectedError
  | InvoiceError
  | AlreadyPaidError
  | WrongDestinationError
  | SkuNotFoundError
  | UnsupportedVersionError
  | ValueError string
  | IndexError
  | RpcError

text \<open>\<^verbatim>\<open>isinstance(e, Error)\<close>, which is what \<^verbatim>\<open>except Error as e\<close> tests.\<close>

fun is_Error :: "exn \<Rightarrow> bool" where
  "is_Error (ValueError m) = False"
| "is_Error IndexError = False"
| "is_Error RpcError = False"
| "is_Error e = True"

text \<open>
  An exception class, as far as \<^verbatim>\<open>isinstance\<close> can tell: the exceptions that are its
  instances.
\<close>

type_synonym exn_class = "exn \<Rightarrow> bool"

definition BadNonceError_class :: exn_class where
  "BadNonceError_class e = (e = BadNonceError)"

definition isinstance :: "exn \<Rightarrow> exn_class list \<Rightarrow> bool" where
  "isinstance e classes = list_ex (\<lambda>c. c e) classes"

section \<open>RetryConfig\<close>

text \<open>
  The delays are Python floats. Only their comparison with zero is used here, so a float
  is a real number, an infinity or NaN, and \<open>float_ge_zero\<close> is \<^verbatim>\<open>x >= 0\<close> (false on NaN).
\<close>

datatype pyfloat = Float real | PosInf | NegInf | NaN

fun float_ge_zero :: "pyfloat \<Rightarrow> bool" where
  "float_ge_zero (Float r) = (0 \<le> r)"
| "float_ge_zero PosInf = True"
| "float_ge_zero NegInf = False"
| "float_ge_zero NaN = False"

record retry_config =
  max_retries :: int
  min_delay :: pyfloat
  max_delay :: pyfloat
  max_nonce_refreshes :: int

text \<open>\<^verbatim>\<open>RetryConfig.__init__\<close>; an argument left out is \<open>None\<close>.\<close>

definition RetryConfig_init ::
  "int option \<Rightarrow> pyfloat option \<Rightarrow> pyfloat option \<Rightarrow> int option \<Rightarrow> retry_config" where
  "RetryConfig_init max_retries_arg min_delay_arg max_delay_arg max_nonce_refreshes_arg =
     \<lparr> max_retries =
         (case max_retries_arg of
            Some v \<Rightarrow> if 0 \<le> v then v else 5
          | None \<Rightarrow> 5),
       min_delay =
         (case min_delay_arg of
            Some v \<Rightarrow> if float_ge_zero v then v else Float (1 / 2)
          | None \<Rightarrow> Float (1 / 2)),
       max_delay =
         (case max_delay_arg of
            Some v \<Rightarrow> if float_ge_zero v then v else Float 10
          | None \<Rightarrow> Float 10),
       max_nonce_refreshes =
         (case max_nonce_refreshes_arg of
            Some v \<Rightarrow> if 0 \<le> v then v else 3
          | None \<Rightarrow> 3) \<rparr>"

text \<open>A supplied value that is below zero, for either kind of field.\<close>

definition int_negative :: "int option \<Rightarrow> bool" where
  "int_negative a = (case a of Some v \<Rightarrow> v < 0 | None \<Rightarrow> False)"

fun float_negative :: "pyfloat option \<Rightarrow> bool" where
  "float_negative (Some (Float r)) = (r < 0)"
| "float_negative (Some NegInf) = True"
| "float_negative a = False"

section \<open>Data model\<close>

text \<open>
  Keys, invoices and hashes are opaque to the client: a key is known by its seed and its
  address, an invoice by its line items. An optional object (\<^verbatim>\<open>channel\<close>,
  \<^verbatim>\<open>whitelist_key\<close>, \<^verbatim>\<open>earn.invoice\<close>) is true in a condition exactly when it is not
  \<^verbatim>\<open>None\<close>; an optional string (\<^verbatim>\<open>memo\<close>) when it is neither \<^verbatim>\<open>None\<close> nor empty.
\<close>

record public_key =
  stellar_address :: string

record private_key =
  stellar_seed :: string
  public_key :: public_key

datatype invoice = Invoice "string list"

type_synonym invoice_list = "invoice list"

datatype transaction_type = UNKNOWN_TYPE | NONE_TYPE | EARN | SPEND | P2P

record earn =
  earn_destination :: public_key
  earn_quarks :: int
  earn_invoice :: "invoice option"

record payment =
  pay_sender :: private_key
  pay_destination :: public_key
  pay_tx_type :: transaction_type
  pay_quarks :: int
  pay_channel :: "private_key option"
  pay_invoice :: "invoice option"
  pay_memo :: "string option"

fun truthy :: "string option \<Rightarrow> bool" where
  "truthy None = False"
| "truthy (Some m) = (m \<noteq> [])"

text \<open>
  Modelled from the spec: the class \<^verbatim>\<open>Payment\<close> (\<^verbatim>\<open>agora.model.payment\<close>) is not
  among the sources. A payment is made of a sender, a destination, a transaction type, an
  amount, an optional channel, an optional invoice and an optional free-text memo; the memo
  and the invoice exclude each other, and a payment does not change once constructed.
  Supplying both is a caller contract violation, raised as a configuration error, which is a
  \<^verbatim>\<open>ValueError\<close> throughout the client; the spec does not give the text of the message.
  A value is supplied when it is true in a condition, as in the tests of
  \<^verbatim>\<open>submit_payment\<close>.
\<close>

definition Payment_init ::
  "private_key \<Rightarrow> public_key \<Rightarrow> transaction_type \<Rightarrow> int \<Rightarrow> private_key option
     \<Rightarrow> invoice option \<Rightarrow> string option \<Rightarrow> exn + payment" where
  "Payment_init sender destination tx_type quarks channel invoice_arg memo_arg =
     (if invoice_arg \<noteq> None \<and> truthy memo_arg
      then Inl (ValueError ''invoice and memo are mutually exclusive'')
      else Inr \<lparr> pay_sender = sender, pay_destination = destination, pay_tx_type = tx_type,
                 pay_quarks = quarks, pay_channel = channel, pay_invoice = invoice_arg,
                 pay_memo = memo_arg \<rparr>)"

text \<open>
  \<^verbatim>\<open>InvoiceList.get_sha_224_hash()\<close> and \<^verbatim>\<open>AgoraMemo.new\<close> are kept symbolic: the
  fingerprint is named by the list it digests, the memo by the arguments it was made from.
\<close>

datatype foreign_key = EmptyKey | Sha224 invoice_list

datatype memo =
    TextMemo string
  | HashMemo int transaction_type int foreign_key

datatype invoice_error_reason = UNKNOWN | ALREADY_PAID | WRONG_DESTINATION | SKU_NOT_FOUND

record invoice_error =
  reason :: invoice_error_reason

text \<open>
  \<^verbatim>\<open>TransactionErrors\<close>: \<^verbatim>\<open>op_errors\<close> is a list whose entries can be raised,
  \<^verbatim>\<open>tx_error\<close> an optional exception.
\<close>

record transaction_errors =
  te_tx_error :: "exn option"
  te_op_errors :: "exn list"

text \<open>
  \<^verbatim>\<open>SubmitTransactionResult\<close>; an absent list of invoice errors and an empty one are
  both false in a condition, and both are \<open>[]\<close> here.
\<close>

record submit_transaction_result =
  tx_hash :: string
  tx_error :: "transaction_errors option"
  invoice_errors :: "invoice_error list"

record earn_result =
  er_earn :: earn
  er_tx_hash :: "string option"
  er_error :: "exn option"

record batch_earn_result =
  succeeded :: "earn_result list"
  failed :: "earn_result list"

section \<open>The transaction builder and the transport\<close>

record payment_op =
  op_destination :: string
  op_amount :: int
  op_source :: string
  op_asset_issuer :: "string option"

text \<open>
  The state of a \<^verbatim>\<open>kin_base.Builder\<close> that the client sets: what
  \<^verbatim>\<open>gen_xdr\<close> serialises. \<open>b_signatures\<close> belongs to the generated envelope
  (\<^verbatim>\<open>builder.te\<close>), which each attempt resets.
\<close>

record builder =
  b_network :: string
  b_fee :: int
  b_source_seed :: string
  b_memo :: "memo option"
  b_ops :: "payment_op list"
  b_sequence :: "int option"
  b_signatures :: "string list"

text \<open>
  The calls that reach the network, in order. The internal client is a parameter: what it
  answers to a call may depend on every call made before (\<open>Inl\<close> when it raises).
\<close>

datatype call =
    GetAccountInfo public_key
  | SubmitTransaction builder "invoice_list option"

type_synonym net = "call list"

record account_info =
  sequence_number :: int
  balance :: int

record internal_client =
  get_account_info :: "net \<Rightarrow> public_key \<Rightarrow> exn + account_info"
  submit_transaction :: "net \<Rightarrow> builder \<Rightarrow> invoice_list option \<Rightarrow> exn + submit_transaction_result"

section \<open>Retry\<close>

text \<open>
  Modelled from the spec: \<^verbatim>\<open>agora.retry\<close> (\<^verbatim>\<open>retry\<close>, \<^verbatim>\<open>LimitStrategy\<close>,
  \<^verbatim>\<open>RetriableErrorsStrategy\<close>, \<^verbatim>\<open>NonRetriableErrorsStrategy\<close>) is not among the
  sources. A strategy decides from the attempt index and the last error. Non-retriable-errors
  stops when the error's kind is in its blocklist; retriable-errors continues only when it
  is in its allowlist; limit stops once the attempt index has reached the configured maximum
  of attempts, the first included. The attempt index starts at 0 with the first attempt,
  which is made unconditionally, and the strategies are asked about the attempt that would
  come next, so that a limit of \<open>m\<close> lets \<open>m\<close> attempts happen, as the spec counts them.
  Backoff-with-jitter and the wait between attempts are left out: they are random and timed,
  and the nonce loop uses neither.
\<close>

datatype decision = ContinueImmediately | StopExhausted | StopNonretriable

datatype strategy =
    NonRetriableErrorsStrategy "exn_class list"
  | RetriableErrorsStrategy "exn_class list"
  | LimitStrategy int

fun decide :: "strategy \<Rightarrow> nat \<Rightarrow> exn \<Rightarrow> decision" where
  "decide (NonRetriableErrorsStrategy blocklist) i e =
     (if isinstance e blocklist then StopNonretriable else ContinueImmediately)"
| "decide (RetriableErrorsStrategy allowlist) i e =
     (if isinstance e allowlist then ContinueImmediately else StopNonretriable)"
| "decide (LimitStrategy max_attempts) i e =
     (if max_attempts \<le> int i then StopExhausted else ContinueImmediately)"

fun is_stop :: "decision \<Rightarrow> bool" where
  "is_stop ContinueImmediately = False"
| "is_stop StopExhausted = True"
| "is_stop StopNonretriable = True"

text \<open>
  Modelled from the spec: the retry executor. It invokes the operation; on success it
  returns at once; after a failure it evaluates every strategy, propagates the failure if
  any of them stops, and otherwise invokes the operation again. The operation works on a
  state \<open>'s\<close> (what it mutates between attempts), \<open>i\<close> is the index of the attempt
  being made, and \<open>None\<close> is a loop that never ends.
\<close>

partial_function (option) retry_from ::
  "strategy list \<Rightarrow> ('s \<Rightarrow> (exn + 'a) \<times> 's) \<Rightarrow> nat \<Rightarrow> 's \<Rightarrow> ((exn + 'a) \<times> 's) option" where
  "retry_from strategies f i s =
     (case f s of
        (Inr r, s') \<Rightarrow> Some (Inr r, s')
      | (Inl e, s') \<Rightarrow>
          if list_ex (\<lambda>st. is_stop (decide st (Suc i) e)) strategies
          then Some (Inl e, s')
          else retry_from strategies f (Suc i) s')"

declare retry_from.simps [code]

definition retry ::
  "strategy list \<Rightarrow> ('s \<Rightarrow> (exn + 'a) \<times> 's) \<Rightarrow> 's \<Rightarrow> ((exn + 'a) \<times> 's) option" where
  "retry strategies f s = retry_from strategies f 0 s"

section \<open>Client\<close>

definition SUPPORTED_VERSIONS :: "int list" where
  "SUPPORTED_VERSIONS = [2, 3]"

record client =
  network_name :: string
  app_index :: int
  whitelist_key :: "private_key option"
  nonce_retry_strategies :: "strategy list"
  kin_version :: int
  asset_issuer :: "string option"

text \<open>\<^verbatim>\<open>retry_config if retry_config else RetryConfig()\<close>.\<close>

definition effective_retry_config :: "retry_config option \<Rightarrow> retry_config" where
  "effective_retry_config retry_config_arg =
     (case retry_config_arg of
        Some rc \<Rightarrow> rc
      | None \<Rightarrow> RetryConfig_init None None None None)"

text \<open>\<^verbatim>\<open>str\<close> of a natural number and of an integer, for the f-strings of the messages.\<close>

fun str_nat :: "nat \<Rightarrow> string" where
  "str_nat n =
     (if n < 10 then [char_of (48 + n)]
      else str_nat (n div 10) @ [char_of (48 + n mod 10)])"

declare str_nat.simps [simp del]

definition str_int :: "int \<Rightarrow> string" where
  "str_int i = (if i < 0 then ''-'' @ str_nat (nat (- i)) else str_nat (nat i))"

text \<open>
  \<^verbatim>\<open>Client.__init__\<close>. The internal client it builds is a parameter of every call
  here, so of the gRPC channel and the endpoint only their presence is kept (an endpoint is
  present when it is a non-empty string). \<open>names\<close> and \<open>issuer\<close> stand for the
  entries of \<^verbatim>\<open>_NETWORK_NAMES\<close> and \<^verbatim>\<open>_KIN_2_ISSUERS\<close> for the environment.
\<close>

definition Client_init ::
  "(int \<Rightarrow> string) \<Rightarrow> string \<Rightarrow> int \<Rightarrow> private_key option \<Rightarrow> string option \<Rightarrow> string option
     \<Rightarrow> retry_config option \<Rightarrow> int \<Rightarrow> exn + client" where
  "Client_init names issuer app_index_arg whitelist_key_arg grpc_channel endpoint
     retry_config_arg kin_version_arg =
     (if kin_version_arg \<notin> set SUPPORTED_VERSIONS
      then Inl (ValueError (str_int kin_version_arg @ '' is not a supported version of Kin''))
      else if grpc_channel \<noteq> None \<and> truthy endpoint
      then Inl (ValueError ''`grpc_channel` and `endpoint` cannot both be set'')
      else
        let rc = effective_retry_config retry_config_arg
        in Inr \<lparr> network_name = names kin_version_arg,
                 app_index = app_index_arg,
                 whitelist_key = whitelist_key_arg,
                 nonce_retry_strategies =
                   [RetriableErrorsStrategy [BadNonceError_class],
                    LimitStrategy (max_nonce_refreshes rc + 1)],
                 kin_version = kin_version_arg,
                 asset_issuer = (if kin_version_arg = 2 then Some issuer else None) \<rparr>)"

definition get_stellar_builder :: "client \<Rightarrow> private_key \<Rightarrow> builder" where
  "get_stellar_builder c source =
     \<lparr> b_network = network_name c, b_fee = 100, b_source_seed = stellar_seed source,
       b_memo = None, b_ops = [], b_sequence = None, b_signatures = [] \<rparr>"

text \<open>
  The closure \<^verbatim>\<open>_sign_and_submit\<close>. Its state is the \<^verbatim>\<open>nonlocal offset\<close> and the
  network; \<open>seq\<close> is \<^verbatim>\<open>source_info.sequence_number\<close>.
\<close>

definition bad_nonce_error :: "submit_transaction_result \<Rightarrow> exn option" where
  "bad_nonce_error result =
     (case tx_error result of
        None \<Rightarrow> None
      | Some te \<Rightarrow>
          (case te_tx_error te of
             None \<Rightarrow> None
           | Some e \<Rightarrow> if BadNonceError_class e then Some e else None))"

definition signed_builder :: "builder \<Rightarrow> private_key list \<Rightarrow> int \<Rightarrow> builder" where
  "signed_builder b signers sequence =
     b \<lparr> b_sequence := Some sequence, b_signatures := map stellar_seed signers \<rparr>"

definition sign_and_submit ::
  "internal_client \<Rightarrow> private_key list \<Rightarrow> builder \<Rightarrow> invoice_list option \<Rightarrow> int
     \<Rightarrow> int \<times> net \<Rightarrow> (exn + submit_transaction_result) \<times> (int \<times> net)" where
  "sign_and_submit ic signers b invoice_list seq st =
     (case st of (offset, n) \<Rightarrow>
        let tx = signed_builder b signers (seq + offset);
            n' = n @ [SubmitTransaction tx invoice_list]
        in (case submit_transaction ic n tx invoice_list of
              Inl e \<Rightarrow> (Inl e, (offset, n'))
            | Inr result \<Rightarrow>
                (case bad_nonce_error result of
                   Some e \<Rightarrow> (Inl e, (offset + 1, n'))
                 | None \<Rightarrow> (Inr result, (offset, n')))))"

text \<open>
  \<^verbatim>\<open>_sign_and_submit_builder\<close>. \<^verbatim>\<open>signers[0]\<close> of an empty list raises
  \<^verbatim>\<open>IndexError\<close>.
\<close>

definition sign_and_submit_builder ::
  "client \<Rightarrow> internal_client \<Rightarrow> private_key list \<Rightarrow> builder \<Rightarrow> invoice_list option \<Rightarrow> net
     \<Rightarrow> ((exn + submit_transaction_result) \<times> net) option" where
  "sign_and_submit_builder c ic signers b invoice_list n =
     (case signers of
        [] \<Rightarrow> Some (Inl IndexError, n)
      | first # _ \<Rightarrow>
          let n1 = n @ [GetAccountInfo (public_key first)]
          in (case get_account_info ic n (public_key first) of
                Inl e \<Rightarrow> Some (Inl e, n1)
              | Inr source_info \<Rightarrow>
                  (case retry (nonce_retry_strategies c)
                          (sign_and_submit ic signers b invoice_list (sequence_number source_info))
                          (1, n1) of
                     None \<Rightarrow> None
                   | Some (out, (offset, n')) \<Rightarrow> Some (out, n'))))"

section \<open>Single payments\<close>

text \<open>
  The memo of a payment and the invoice list sent with it (\<^verbatim>\<open>submit_payment\<close>, from
  \<^verbatim>\<open>invoice_list = None\<close> to \<^verbatim>\<open>builder.add_hash_memo\<close>).
\<close>

definition payment_memo :: "client \<Rightarrow> payment \<Rightarrow> memo option \<times> invoice_list option" where
  "payment_memo c p =
     (if truthy (pay_memo p) then
        (case pay_memo p of
           Some m \<Rightarrow> (Some (TextMemo m), None)
         | None \<Rightarrow> (None, None))
      else if 0 < app_index c then
        (case pay_invoice p of
           Some iv \<Rightarrow> (Some (HashMemo 1 (pay_tx_type p) (app_index c) (Sha224 [iv])), Some [iv])
         | None \<Rightarrow> (Some (HashMemo 1 (pay_tx_type p) (app_index c) EmptyKey), None))
      else (None, None))"

text \<open>
  \<^verbatim>\<open>builder.append_payment_op\<close>; \<open>op_amount\<close> is the number of quarks handed to
  \<^verbatim>\<open>quarks_to_kin\<close>.
\<close>

definition append_payment_op ::
  "client \<Rightarrow> builder \<Rightarrow> public_key \<Rightarrow> int \<Rightarrow> private_key \<Rightarrow> builder" where
  "append_payment_op c b destination quarks sender =
     b \<lparr> b_ops := b_ops b @
           [\<lparr> op_destination = stellar_address destination,
              op_amount = (if kin_version c = 2 then quarks * 100 else quarks),
              op_source = stellar_address (public_key sender),
              op_asset_issuer = (if kin_version c = 2 then asset_issuer c else None) \<rparr>] \<rparr>"

definition signers_of ::
  "client \<Rightarrow> private_key \<Rightarrow> private_key option \<Rightarrow> private_key list" where
  "signers_of c sender channel =
     (case channel of Some ch \<Rightarrow> [ch, sender] | None \<Rightarrow> [sender]) @
     (case whitelist_key c of Some k \<Rightarrow> [k] | None \<Rightarrow> [])"

definition source_of :: "private_key \<Rightarrow> private_key option \<Rightarrow> private_key" where
  "source_of sender channel = (case channel of Some ch \<Rightarrow> ch | None \<Rightarrow> sender)"

text \<open>
  What \<^verbatim>\<open>submit_payment\<close> makes of the submission result: the statements after the call
  of \<^verbatim>\<open>_sign_and_submit_builder\<close>.
\<close>

definition payment_outcome :: "submit_transaction_result \<Rightarrow> exn + string" where
  "payment_outcome result =
     (let after_tx_error =
        (if invoice_errors result \<noteq> [] then
           (if length (invoice_errors result) \<noteq> 1 then
              Inl (Error (''invalid number of invoice errors, expected 0 or 1, got '' @
                          str_nat (length (invoice_errors result))))
            else if reason (hd (invoice_errors result)) = ALREADY_PAID then Inl AlreadyPaidError
            else if reason (hd (invoice_errors result)) = WRONG_DESTINATION
              then Inl WrongDestinationError
            else if reason (hd (invoice_errors result)) = SKU_NOT_FOUND then Inl SkuNotFoundError
            else Inl (Error ''unknown invoice error: InvoiceErrorReason.UNKNOWN''))
         else Inr (tx_hash result))
      in (case tx_error result of
            None \<Rightarrow> after_tx_error
          | Some te \<Rightarrow>
              if 0 < length (te_op_errors te) then
                (if length (te_op_errors te) \<noteq> 1 then
                   Inl (Error (''invalid number of operation errors, expected 0 or 1, got '' @
                               str_nat (length (te_op_errors te))))
                 else Inl (hd (te_op_errors te)))
              else
                (case te_tx_error te of
                   Some e \<Rightarrow> Inl e
                 | None \<Rightarrow> after_tx_error)))"

text \<open>
  The builder \<^verbatim>\<open>submit_payment\<close> hands to \<^verbatim>\<open>_sign_and_submit_builder\<close>: the
  source is the channel if there is one, the memo is attached, one payment operation is
  appended.
\<close>

definition payment_builder :: "client \<Rightarrow> payment \<Rightarrow> builder" where
  "payment_builder c p =
     append_payment_op c
       ((get_stellar_builder c (source_of (pay_sender p) (pay_channel p)))
          \<lparr> b_memo := fst (payment_memo c p) \<rparr>)
       (pay_destination p) (pay_quarks p) (pay_sender p)"

definition submit_payment ::
  "client \<Rightarrow> internal_client \<Rightarrow> payment \<Rightarrow> net \<Rightarrow> ((exn + string) \<times> net) option" where
  "submit_payment c ic p n =
     (if kin_version c \<notin> set SUPPORTED_VERSIONS then Some (Inl UnsupportedVersionError, n)
      else if pay_invoice p \<noteq> None \<and> app_index c \<le> 0 then
        Some (Inl (ValueError ''cannot submit a payment with an invoice without an app index''), n)
      else
        (case sign_and_submit_builder c ic (signers_of c (pay_sender p) (pay_channel p))
                (payment_builder c p) (snd (payment_memo c p)) n of
           None \<Rightarrow> None
         | Some (Inl e, n') \<Rightarrow> Some (Inl e, n')
         | Some (Inr result, n') \<Rightarrow> Some (payment_outcome result, n')))"


section \<open>Earn batches\<close>

text \<open>
  Modelled from the spec: \<^verbatim>\<open>agora.utils.partition\<close> is not among the sources. It
  splits a list into sub-lists of a fixed size, in order; the last one may be smaller. The
  client always asks for the size 100; a size of 0 gives no sub-list here.
\<close>

function partition_list :: "'a list \<Rightarrow> nat \<Rightarrow> 'a list list" where
  "partition_list xs k =
     (if xs = [] \<or> k = 0 then []
      else take k xs # partition_list (drop k xs) k)"
  by pat_completeness auto
termination
  by (relation "measure (\<lambda>(xs, k). length xs)") auto

declare partition_list.simps [simp del]

definition invoices_of :: "earn list \<Rightarrow> invoice list" where
  "invoices_of earns = List.map_filter earn_invoice earns"

definition earn_memo :: "client \<Rightarrow> earn list \<Rightarrow> string option \<Rightarrow> memo option \<times> invoice_list option" where
  "earn_memo c earns memo_arg =
     (let invoice_list = (if invoices_of earns \<noteq> [] then Some (invoices_of earns) else None)
      in (if truthy memo_arg then
            (case memo_arg of
               Some m \<Rightarrow> (Some (TextMemo m), invoice_list)
             | None \<Rightarrow> (None, invoice_list))
          else if 0 < app_index c then
            (case invoice_list of
               Some il \<Rightarrow> (Some (HashMemo 1 EARN (app_index c) (Sha224 il)), invoice_list)
             | None \<Rightarrow> (Some (HashMemo 1 EARN (app_index c) EmptyKey), invoice_list))
          else (None, invoice_list)))"

text \<open>
  The builder \<^verbatim>\<open>_submit_earn_batch_tx\<close> hands to \<^verbatim>\<open>_sign_and_submit_builder\<close>:
  one payment operation for each earn, in order, under one memo.
\<close>

definition earn_batch_builder ::
  "client \<Rightarrow> private_key \<Rightarrow> earn list \<Rightarrow> private_key option \<Rightarrow> string option \<Rightarrow> builder" where
  "earn_batch_builder c sender earns channel memo_arg =
     fold (\<lambda>e bld. append_payment_op c bld (earn_destination e) (earn_quarks e) sender) earns
       ((get_stellar_builder c (source_of sender channel))
          \<lparr> b_memo := fst (earn_memo c earns memo_arg) \<rparr>)"

text \<open>\<^verbatim>\<open>_submit_earn_batch_tx\<close>.\<close>

definition submit_earn_batch_tx ::
  "client \<Rightarrow> internal_client \<Rightarrow> private_key \<Rightarrow> earn list \<Rightarrow> private_key option
     \<Rightarrow> string option \<Rightarrow> net \<Rightarrow> ((exn + submit_transaction_result) \<times> net) option" where
  "submit_earn_batch_tx c ic sender earns channel memo_arg n =
     (if 100 < length earns then Some (Inl (ValueError ''cannot send more than 100 earns''), n)
      else
        (case sign_and_submit_builder c ic (signers_of c sender channel)
                (earn_batch_builder c sender earns channel memo_arg)
                (snd (earn_memo c earns memo_arg)) n of
           None \<Rightarrow> None
         | Some (Inl e, n') \<Rightarrow> Some (Inl e, n')
         | Some (Inr result, n') \<Rightarrow>
             if invoice_errors result \<noteq> []
             then Some (Inl (Error ''unexpected invoice errors present''), n')
             else Some (Inr result, n')))"

text \<open>
  \<^verbatim>\<open>[EarnResult(earn, tx_hash=h, error=op_errors[idx]) for idx, earn in enumerate(batch)]\<close>:
  an index beyond the end of \<^verbatim>\<open>op_errors\<close> raises \<^verbatim>\<open>IndexError\<close>.
\<close>

fun op_error_results :: "string \<Rightarrow> exn list \<Rightarrow> nat \<Rightarrow> earn list \<Rightarrow> exn + earn_result list" where
  "op_error_results h errs idx [] = Inr []"
| "op_error_results h errs idx (e # rest) =
     (if idx < length errs then
        (case op_error_results h errs (Suc idx) rest of
           Inl x \<Rightarrow> Inl x
         | Inr rs \<Rightarrow> Inr (\<lparr> er_earn = e, er_tx_hash = Some h, er_error = Some (errs ! idx) \<rparr> # rs))
      else Inl IndexError)"

text \<open>
  The loop of \<^verbatim>\<open>submit_earn_batch\<close> over the sub-batches, with the lists
  \<^verbatim>\<open>succeeded\<close> and \<^verbatim>\<open>failed\<close> as they stand; \<^verbatim>\<open>break\<close> ends the recursion.
\<close>

fun earn_batch_loop ::
  "client \<Rightarrow> internal_client \<Rightarrow> private_key \<Rightarrow> private_key option \<Rightarrow> string option
     \<Rightarrow> earn list list \<Rightarrow> earn_result list \<Rightarrow> earn_result list \<Rightarrow> net
     \<Rightarrow> ((exn + earn_result list \<times> earn_result list) \<times> net) option" where
  "earn_batch_loop c ic sender channel memo_arg [] succ fl n = Some (Inr (succ, fl), n)"
| "earn_batch_loop c ic sender channel memo_arg (earn_batch # rest) succ fl n =
     (case submit_earn_batch_tx c ic sender earn_batch channel memo_arg n of
        None \<Rightarrow> None
      | Some (Inl e, n') \<Rightarrow>
          if is_Error e
          then Some (Inr (succ, fl @ map (\<lambda>earn. \<lparr> er_earn = earn, er_tx_hash = None,
                                                   er_error = Some e \<rparr>) earn_batch), n')
          else Some (Inl e, n')
      | Some (Inr result, n') \<Rightarrow>
          (case tx_error result of
             None \<Rightarrow>
               earn_batch_loop c ic sender channel memo_arg rest
                 (succ @ map (\<lambda>earn. \<lparr> er_earn = earn, er_tx_hash = Some (tx_hash result),
                                         er_error = None \<rparr>) earn_batch) fl n'
           | Some err \<Rightarrow>
               if te_op_errors err \<noteq> [] then
                 (case op_error_results (tx_hash result) (te_op_errors err) 0 earn_batch of
                    Inl x \<Rightarrow> Some (Inl x, n')
                  | Inr rs \<Rightarrow> Some (Inr (succ, fl @ rs), n'))
               else
                 Some (Inr (succ, fl @ map (\<lambda>earn. \<lparr> er_earn = earn,
                                                       er_tx_hash = Some (tx_hash result),
                                                       er_error = te_tx_error err \<rparr>) earn_batch),
                       n')))"

text \<open>\<^verbatim>\<open>submit_earn_batch\<close>.\<close>

definition submit_earn_batch ::
  "client \<Rightarrow> internal_client \<Rightarrow> private_key \<Rightarrow> earn list \<Rightarrow> private_key option
     \<Rightarrow> string option \<Rightarrow> net \<Rightarrow> ((exn + batch_earn_result) \<times> net) option" where
  "submit_earn_batch c ic sender earns channel memo_arg n =
     (if kin_version c \<notin> set SUPPORTED_VERSIONS then Some (Inl UnsupportedVersionError, n)
      else if invoices_of earns \<noteq> [] \<and> app_index c \<le> 0 then
        Some (Inl (ValueError ''cannot submit a payment with an invoice without an app index''), n)
      else if invoices_of earns \<noteq> [] \<and> length (invoices_of earns) \<noteq> length earns then
        Some (Inl (ValueError ''Either all or none of the earns must contain invoices''), n)
      else if invoices_of earns \<noteq> [] \<and> truthy memo_arg then
        Some (Inl (ValueError ''Cannot use both text memo and invoices''), n)
      else
        (case earn_batch_loop c ic sender channel memo_arg (partition_list earns 100) [] [] n of
           None \<Rightarrow> None
         | Some (Inl e, n') \<Rightarrow> Some (Inl e, n')
         | Some (Inr (succ, fl), n') \<Rightarrow>
             Some (Inr \<lparr> succeeded = succ,
                        failed = fl @ map (\<lambda>earn. \<lparr> er_earn = earn, er_tx_hash = None,
                                                      er_error = None \<rparr>)
                                        (drop (length succ + length fl) earns) \<rparr>, n')))"

section \<open>Scenarios of the nonce loop\<close>

text \<open>
  For stating what the loop does against a given internal client: the submissions made by
  \<open>k\<close> attempts in a row that start at \<open>offset\<close>, each with the sequence number one
  above the last, and the internal client answering a submission with a result whose
  transaction-level error is a bad nonce.
\<close>

definition attempts_from ::
  "builder \<Rightarrow> private_key list \<Rightarrow> invoice_list option \<Rightarrow> int \<Rightarrow> int \<Rightarrow> nat \<Rightarrow> call list" where
  "attempts_from b signers il q offset k =
     map (\<lambda>j. SubmitTransaction (signed_builder b signers (q + offset + int j)) il) [0..<k]"

definition answers_bad_nonce ::
  "internal_client \<Rightarrow> net \<Rightarrow> builder \<Rightarrow> invoice_list option \<Rightarrow> bool" where
  "answers_bad_nonce ic n tx il =
     (case submit_transaction ic n tx il of
        Inl e \<Rightarrow> False
      | Inr r \<Rightarrow> bad_nonce_error r \<noteq> None)"

section \<open>Example values\<close>

text \<open>
  A client made with the default retry configuration, and an internal client that holds the
  sender's account one sequence number ahead of what it reports.
\<close>

definition demo_sender :: private_key where
  "demo_sender = \<lparr> stellar_seed = ''SENDER'', public_key = \<lparr> stellar_address = ''GSENDER'' \<rparr> \<rparr>"

definition demo_client :: client where
  "demo_client =
     \<lparr> network_name = ''TESTNET'', app_index = 1, whitelist_key = None,
       nonce_retry_strategies =
         [RetriableErrorsStrategy [BadNonceError_class], LimitStrategy 4],
       kin_version = 3, asset_issuer = None \<rparr>"

definition ok_result :: submit_transaction_result where
  "ok_result = \<lparr> tx_hash = ''HASH'', tx_error = None, invoice_errors = [] \<rparr>"

definition bad_nonce_result :: submit_transaction_result where
  "bad_nonce_result =
     \<lparr> tx_hash = ''HASH'',
       tx_error = Some \<lparr> te_tx_error = Some BadNonceError, te_op_errors = [] \<rparr>,
       invoice_errors = [] \<rparr>"

definition stale_account_client :: internal_client where
  "stale_account_client =
     \<lparr> get_account_info = (\<lambda>n pk. Inr \<lparr> sequence_number = 10, balance = 0 \<rparr>),
       submit_transaction =
         (\<lambda>n tx il. if b_sequence tx = Some 12 then Inr ok_result else Inr bad_nonce_result) \<rparr>"

definition demo_earn :: "string \<Rightarrow> int \<Rightarrow> earn" where
  "demo_earn address amount =
     \<lparr> earn_destination = \<lparr> stellar_address = address \<rparr>, earn_quarks = amount,
       earn_invoice = None \<rparr>"

text \<open>An internal client that gives one fixed answer to every submission.\<close>

definition answering_client :: "exn + submit_transaction_result \<Rightarrow> internal_client" where
  "answering_client answer =
     \<lparr> get_account_info = (\<lambda>n pk. Inr \<lparr> sequence_number = 10, balance = 0 \<rparr>),
       submit_transaction = (\<lambda>n tx il. answer) \<rparr>"

text \<open>
  A sub-batch of two earns, the calls one submission of it makes, and a result that carries
  one operation error for the two.
\<close>

definition demo_batch :: "earn list" where
  "demo_batch = [demo_earn ''GA'' 5, demo_earn ''GB'' 7]"

definition demo_batch_log :: "earn list \<Rightarrow> net" where
  "demo_batch_log batch =
     [GetAccountInfo (public_key demo_sender),
      SubmitTransaction
        (signed_builder (earn_batch_builder demo_client demo_sender batch None None)
           [demo_sender] 11) None]"

definition too_few_op_errors :: submit_transaction_result where
  "too_few_op_errors =
     \<lparr> tx_hash = ''HASH'',
       tx_error = Some \<lparr> te_tx_error = Some TransactionMalformedError,
                         te_op_errors = [InsufficientBalanceError] \<rparr>,
       invoice_errors = [] \<rparr>"

text \<open>A result that carries an invoice error, and earns with and without an invoice.\<close>

definition invoice_error_result :: submit_transaction_result where
  "invoice_error_result =
     \<lparr> tx_hash = ''HASH'', tx_error = None, invoice_errors = [\<lparr> reason = ALREADY_PAID \<rparr>] \<rparr>"

definition extra_op_errors :: submit_transaction_result where
  "extra_op_errors =
     \<lparr> tx_hash = ''HASH'',
       tx_error = Some \<lparr> te_tx_error = Some TransactionMalformedError,
                         te_op_errors = [InsufficientBalanceError, DestinationDoesNotExistError] \<rparr>,
       invoice_errors = [] \<rparr>"

definition invoiced_earn :: earn where
  "invoiced_earn =
     \<lparr> earn_destination = \<lparr> stellar_address = ''GC'' \<rparr>, earn_quarks = 9,
       earn_invoice = Some (Invoice [''item'']) \<rparr>"


definition invoice_payment :: payment where
  "invoice_payment =
     \<lparr> pay_sender = demo_sender, pay_destination = \<lparr> stellar_address = ''GD'' \<rparr>,
       pay_tx_type = SPEND, pay_quarks = 3, pay_channel = None,
       pay_invoice = Some (Invoice [''item'']), pay_memo = None \<rparr>"

definition all_errors_result :: submit_transaction_result where
  "all_errors_result =
     \<lparr> tx_hash = ''HASH'',
       tx_error = Some \<lparr> te_tx_error = Some TransactionMalformedError,
                         te_op_errors = [InsufficientBalanceError] \<rparr>,
       invoice_errors = [\<lparr> reason = ALREADY_PAID \<rparr>] \<rparr>"

section \<open>Properties of RetryConfig\<close>

lemma RetryConfig_init_nonce_nonneg:
  "0 \<le> max_nonce_refreshes (RetryConfig_init a b c d)"
  by (simp add: RetryConfig_init_def split: option.split)

text \<open>
  Claim C7. Every field of a constructed RetryConfig that was left out or supplied with a
  negative value holds its default (max_retries 5, max_nonce_refreshes 3, min_delay 0.5,
  max_delay 10), and no construction raises (\<open>RetryConfig_init\<close> is total, without an
  error branch); a supplied value that is not below zero is kept as given.
\<close>

theorem RetryConfig_defaults:
  "(a = None \<or> int_negative a \<longrightarrow> max_retries (RetryConfig_init a b c d) = 5) \<and>
   (d = None \<or> int_negative d \<longrightarrow> max_nonce_refreshes (RetryConfig_init a b c d) = 3) \<and>
   (b = None \<or> float_negative b \<longrightarrow> min_delay (RetryConfig_init a b c d) = Float (1 / 2)) \<and>
   (c = None \<or> float_negative c \<longrightarrow> max_delay (RetryConfig_init a b c d) = Float 10) \<and>
   (\<forall>v. a = Some v \<and> 0 \<le> v \<longrightarrow> max_retries (RetryConfig_init a b c d) = v) \<and>
   (\<forall>v. d = Some v \<and> 0 \<le> v \<longrightarrow> max_nonce_refreshes (RetryConfig_init a b c d) = v) \<and>
   (\<forall>v. b = Some v \<and> float_ge_zero v \<longrightarrow> min_delay (RetryConfig_init a b c d) = v) \<and>
   (\<forall>v. c = Some v \<and> float_ge_zero v \<longrightarrow> max_delay (RetryConfig_init a b c d) = v)"
proof -
  have fneg: "\<And>v. float_negative (Some v) \<Longrightarrow> \<not> float_ge_zero v"
  proof -
    fix v show "float_negative (Some v) \<Longrightarrow> \<not> float_ge_zero v"
      by (cases v) simp_all
  qed
  show ?thesis
    by (auto simp: RetryConfig_init_def int_negative_def dest: fneg split: option.splits)
qed

theorem RetryConfig_defaults_witness:
  "max_retries (RetryConfig_init (Some (- 1)) None (Some (Float (- 2))) (Some 7)) = 5 \<and>
   max_nonce_refreshes (RetryConfig_init (Some (- 1)) None (Some (Float (- 2))) (Some 7)) = 7 \<and>
   min_delay (RetryConfig_init (Some (- 1)) None (Some (Float (- 2))) (Some 7)) = Float (1 / 2) \<and>
   max_delay (RetryConfig_init (Some (- 1)) None (Some (Float (- 2))) (Some 7)) = Float 10"
  using RetryConfig_defaults [where a = "Some (- 1)" and b = None
      and c = "Some (Float (- 2))" and d = "Some 7"]
  by (simp add: int_negative_def)

section \<open>Properties of the nonce loop\<close>

lemma nonce_stop:
  "list_ex (\<lambda>st. is_stop (decide st i e)) [RetriableErrorsStrategy [BadNonceError_class], LimitStrategy m]
     = (e \<noteq> BadNonceError \<or> m \<le> int i)"
  by (simp add: isinstance_def BadNonceError_class_def)

lemma bad_nonce_error_Some: "bad_nonce_error r = Some e \<Longrightarrow> e = BadNonceError"
  by (auto simp: bad_nonce_error_def BadNonceError_class_def split: option.splits if_splits)

lemma Client_init_nonce:
  "Client_init names issuer ai wk gc ep rco kv = Inr c \<Longrightarrow>
   nonce_retry_strategies c =
     [RetriableErrorsStrategy [BadNonceError_class],
      LimitStrategy (max_nonce_refreshes (effective_retry_config rco) + 1)]"
  by (auto simp: Client_init_def Let_def split: if_splits)

lemma nonce_loop_unfold:
  "retry_from [RetriableErrorsStrategy [BadNonceError_class], LimitStrategy m] f i s =
     (case f s of
        (Inr r, s') \<Rightarrow> Some (Inr r, s')
      | (Inl e, s') \<Rightarrow>
          if e \<noteq> BadNonceError \<or> m \<le> int (Suc i) then Some (Inl e, s')
          else retry_from [RetriableErrorsStrategy [BadNonceError_class], LimitStrategy m] f (Suc i) s')"
  by (subst retry_from.simps) (simp only: nonce_stop)

lemma sign_and_submit_returned:
  "submit_transaction ic n (signed_builder b signers (q + offset)) il = Inr r \<Longrightarrow>
   bad_nonce_error r = None \<Longrightarrow>
   sign_and_submit ic signers b il q (offset, n) =
     (Inr r, (offset, n @ [SubmitTransaction (signed_builder b signers (q + offset)) il]))"
  by (simp add: sign_and_submit_def Let_def)

lemma sign_and_submit_bad_nonce:
  "answers_bad_nonce ic n (signed_builder b signers (q + offset)) il \<Longrightarrow>
   sign_and_submit ic signers b il q (offset, n) =
     (Inl BadNonceError,
      (offset + 1, n @ [SubmitTransaction (signed_builder b signers (q + offset)) il]))"
  by (auto simp: sign_and_submit_def Let_def answers_bad_nonce_def
           dest: bad_nonce_error_Some split: sum.splits option.splits)

lemma sign_and_submit_raised:
  "submit_transaction ic n (signed_builder b signers (q + offset)) il = Inl e \<Longrightarrow>
   sign_and_submit ic signers b il q (offset, n) =
     (Inl e, (offset, n @ [SubmitTransaction (signed_builder b signers (q + offset)) il]))"
  by (simp add: sign_and_submit_def Let_def)

lemma attempts_from_0: "attempts_from b signers il q offset 0 = []"
  by (simp add: attempts_from_def)

lemma attempts_from_Suc:
  "attempts_from b signers il q offset (Suc k) =
     attempts_from b signers il q offset k @
       [SubmitTransaction (signed_builder b signers (q + offset + int k)) il]"
  by (simp add: attempts_from_def)

lemma attempts_from_shift:
  "attempts_from b signers il q offset (Suc k) =
     SubmitTransaction (signed_builder b signers (q + offset)) il #
       attempts_from b signers il q (offset + 1) k"
proof -
  have "[0..<Suc k] = 0 # map Suc [0..<k]"
    by (simp add: upt_conv_Cons map_Suc_upt del: upt_Suc)
  then show ?thesis
    by (simp add: attempts_from_def comp_def ac_simps del: upt_Suc)
qed

lemma bad_nonce_run:
  assumes "\<forall>k<N. answers_bad_nonce ic (n @ attempts_from b signers il q offset k)
                     (signed_builder b signers (q + offset + int k)) il"
    and "int i + int N \<le> m"
  shows "retry_from [RetriableErrorsStrategy [BadNonceError_class], LimitStrategy (m + 1)]
           (sign_and_submit ic signers b il q) i (offset, n) =
         retry_from [RetriableErrorsStrategy [BadNonceError_class], LimitStrategy (m + 1)]
           (sign_and_submit ic signers b il q) (i + N)
           (offset + int N, n @ attempts_from b signers il q offset N)"
  using assms
proof (induction N arbitrary: i offset n)
  case 0
  then show ?case by (simp add: attempts_from_0)
next
  case (Suc N)
  from Suc.prems(1) have first: "answers_bad_nonce ic n (signed_builder b signers (q + offset)) il"
    by (auto simp: attempts_from_0 dest: spec [of _ 0])
  have rest: "\<forall>k<N. answers_bad_nonce ic
       ((n @ [SubmitTransaction (signed_builder b signers (q + offset)) il]) @
          attempts_from b signers il q (offset + 1) k)
       (signed_builder b signers (q + (offset + 1) + int k)) il"
  proof (intro allI impI)
    fix k assume "k < N"
    then have "Suc k < Suc N" by simp
    with Suc.prems(1) have "answers_bad_nonce ic (n @ attempts_from b signers il q offset (Suc k))
                     (signed_builder b signers (q + offset + int (Suc k))) il" by blast
    then show "answers_bad_nonce ic
       ((n @ [SubmitTransaction (signed_builder b signers (q + offset)) il]) @
          attempts_from b signers il q (offset + 1) k)
       (signed_builder b signers (q + (offset + 1) + int k)) il"
      by (simp add: attempts_from_shift add.assoc add.commute add.left_commute)
  qed
  from Suc.prems(2) have bound: "int (Suc i) + int N \<le> m" and go: "\<not> m + 1 \<le> int (Suc i)"
    by simp_all
  have "retry_from [RetriableErrorsStrategy [BadNonceError_class], LimitStrategy (m + 1)]
           (sign_and_submit ic signers b il q) i (offset, n) =
        retry_from [RetriableErrorsStrategy [BadNonceError_class], LimitStrategy (m + 1)]
           (sign_and_submit ic signers b il q) (Suc i)
           (offset + 1, n @ [SubmitTransaction (signed_builder b signers (q + offset)) il])"
    using go by (subst nonce_loop_unfold) (simp add: sign_and_submit_bad_nonce [OF first])
  also have "\<dots> = retry_from [RetriableErrorsStrategy [BadNonceError_class], LimitStrategy (m + 1)]
           (sign_and_submit ic signers b il q) (Suc i + N)
           (offset + 1 + int N,
            (n @ [SubmitTransaction (signed_builder b signers (q + offset)) il]) @
              attempts_from b signers il q (offset + 1) N)"
    by (rule Suc.IH [OF rest bound])
  finally show ?case
    by (simp add: attempts_from_shift add.assoc add.commute add.left_commute)
qed


lemma sign_and_submit_log:
  "\<exists>out offset'. sign_and_submit ic signers b il q (offset, n) =
     (out, (offset', n @ [SubmitTransaction (signed_builder b signers (q + offset)) il]))"
  by (simp add: sign_and_submit_def Let_def split: sum.split option.split)

lemma nonce_loop_calls:
  "\<exists>out offset' more.
     retry_from [RetriableErrorsStrategy [BadNonceError_class], LimitStrategy (m + 1)]
       (sign_and_submit ic signers b il q) i (offset, n) =
       Some (out, (offset', n @ SubmitTransaction (signed_builder b signers (q + offset)) il # more)) \<and>
     int (length more) \<le> max 0 (m - int i) \<and>
     (\<forall>c \<in> set more. \<exists>sq. c = SubmitTransaction (signed_builder b signers sq) il)"
proof (induction "nat (m - int i)" arbitrary: i offset n rule: less_induct)
  case less
  obtain out offset' where step: "sign_and_submit ic signers b il q (offset, n) =
     (out, (offset', n @ [SubmitTransaction (signed_builder b signers (q + offset)) il]))"
    using sign_and_submit_log by blast
  let ?tx = "SubmitTransaction (signed_builder b signers (q + offset)) il"
  let ?L = "retry_from [RetriableErrorsStrategy [BadNonceError_class], LimitStrategy (m + 1)]
       (sign_and_submit ic signers b il q)"
  show ?case
  proof (cases "\<exists>e. out = Inl e \<and> e = BadNonceError \<and> \<not> m + 1 \<le> int (Suc i)")
    case False
    then have "?L i (offset, n) = Some (out, (offset', n @ ?tx # []))"
      by (subst nonce_loop_unfold) (auto simp: step split: sum.split)
    then show ?thesis
      by (intro exI [of _ out] exI [of _ offset'] exI [of _ "[]"]) auto
  next
    case True
    then have out: "out = Inl BadNonceError" and go: "\<not> m + 1 \<le> int (Suc i)" by auto
    have unfold: "?L i (offset, n) = ?L (Suc i) (offset', n @ [?tx])"
      using go by (subst nonce_loop_unfold) (simp add: step out)
    from go have "nat (m - int (Suc i)) < nat (m - int i)" by simp
    from less [OF this, of offset' "n @ [?tx]"]
    obtain out2 offset2 more where
      run: "?L (Suc i) (offset', n @ [?tx]) =
              Some (out2, (offset2, (n @ [?tx]) @
                SubmitTransaction (signed_builder b signers (q + offset')) il # more))"
      and len: "int (length more) \<le> max 0 (m - int (Suc i))"
      and shape: "\<forall>c \<in> set more. \<exists>sq. c = SubmitTransaction (signed_builder b signers sq) il"
      by blast
    let ?more = "SubmitTransaction (signed_builder b signers (q + offset')) il # more"
    have "?L i (offset, n) = Some (out2, (offset2, n @ ?tx # ?more))"
      using unfold run by simp
    moreover have "int (length ?more) \<le> max 0 (m - int i)"
      using len go by simp
    moreover have "\<forall>c \<in> set ?more. \<exists>sq. c = SubmitTransaction (signed_builder b signers sq) il"
      using shape by auto
    ultimately show ?thesis by blast
  qed
qed

text \<open>
  Claim C2. Once the first signer's sequence number \<open>q\<close> has been fetched, the first
  submission carries the sequence \<open>q + 1\<close>, and at most \<open>max_nonce_refreshes\<close> more
  submissions follow it, whatever the internal client answers. When the first \<open>N\<close>
  submissions (\<open>N \<le> max_nonce_refreshes\<close>) are answered with a bad nonce and the next one
  is not, that next submission carries the sequence \<open>q + N + 1\<close>, and its result is what
  the coordinator returns. When all \<open>max_nonce_refreshes + 1\<close> submissions are answered
  with a bad nonce, no further one is made and \<open>BadNonceError\<close> is raised to the caller.
\<close>

theorem nonce_refresh_sequence:
  fixes m :: int and q :: int
  assumes init: "Client_init names issuer ai wk gc ep rco kv = Inr c"
    and m: "max_nonce_refreshes (effective_retry_config rco) = m"
    and m0: "0 \<le> m"
    and acct: "get_account_info ic n (public_key first) = Inr info"
    and q: "sequence_number info = q"
    and n1: "n @ [GetAccountInfo (public_key first)] = n1"
    and signers: "signers = first # others"
  shows "(\<exists>out more.
            sign_and_submit_builder c ic signers b il n =
              Some (out, n1 @ SubmitTransaction (signed_builder b signers (q + 1)) il # more) \<and>
            int (length more) \<le> m \<and>
            (\<forall>x \<in> set more. \<exists>sq. x = SubmitTransaction (signed_builder b signers sq) il)) \<and>
         (\<forall>N r. int N \<le> m \<and>
            (\<forall>k<N. answers_bad_nonce ic (n1 @ attempts_from b signers il q 1 k)
                      (signed_builder b signers (q + 1 + int k)) il) \<and>
            submit_transaction ic (n1 @ attempts_from b signers il q 1 N)
              (signed_builder b signers (q + int N + 1)) il = Inr r \<and>
            bad_nonce_error r = None \<longrightarrow>
            sign_and_submit_builder c ic signers b il n =
              Some (Inr r, n1 @ attempts_from b signers il q 1 N @
                      [SubmitTransaction (signed_builder b signers (q + int N + 1)) il])) \<and>
         ((\<forall>k\<le>nat m. answers_bad_nonce ic (n1 @ attempts_from b signers il q 1 k)
                      (signed_builder b signers (q + 1 + int k)) il) \<longrightarrow>
            sign_and_submit_builder c ic signers b il n =
              Some (Inl BadNonceError, n1 @ attempts_from b signers il q 1 (nat m + 1)))"
proof -
  let ?S = "[RetriableErrorsStrategy [BadNonceError_class], LimitStrategy (m + 1)]"
  let ?L = "retry_from ?S (sign_and_submit ic signers b il q)"
  have strategies: "nonce_retry_strategies c = ?S"
    using Client_init_nonce [OF init] m by simp
  have sab: "sign_and_submit_builder c ic signers b il n =
      (case ?L 0 (1, n1) of None \<Rightarrow> None | Some (out, (offset, n')) \<Rightarrow> Some (out, n'))"
    using acct q n1 signers strategies
    by (simp add: sign_and_submit_builder_def Let_def retry_def)
  have part1: "\<exists>out more.
            sign_and_submit_builder c ic signers b il n =
              Some (out, n1 @ SubmitTransaction (signed_builder b signers (q + 1)) il # more) \<and>
            int (length more) \<le> m \<and>
            (\<forall>x \<in> set more. \<exists>sq. x = SubmitTransaction (signed_builder b signers sq) il)"
  proof -
    obtain out offset' more where
      run: "?L 0 (1, n1) =
         Some (out, (offset', n1 @ SubmitTransaction (signed_builder b signers (q + 1)) il # more))"
      and len: "int (length more) \<le> max 0 (m - int 0)"
      and shape: "\<forall>x \<in> set more. \<exists>sq. x = SubmitTransaction (signed_builder b signers sq) il"
      using nonce_loop_calls [of m ic signers b il q 0 1 n1] by blast
    from len m0 have "int (length more) \<le> m" by simp
    with run shape show ?thesis unfolding sab by auto
  qed
  have part2: "sign_and_submit_builder c ic signers b il n =
              Some (Inr r, n1 @ attempts_from b signers il q 1 N @
                      [SubmitTransaction (signed_builder b signers (q + int N + 1)) il])"
    if N: "int N \<le> m"
      and bad: "\<forall>k<N. answers_bad_nonce ic (n1 @ attempts_from b signers il q 1 k)
                      (signed_builder b signers (q + 1 + int k)) il"
      and ok: "submit_transaction ic (n1 @ attempts_from b signers il q 1 N)
              (signed_builder b signers (q + int N + 1)) il = Inr r"
      and r: "bad_nonce_error r = None" for N r
  proof -
    have "?L 0 (1, n1) = ?L (0 + N) (1 + int N, n1 @ attempts_from b signers il q 1 N)"
      using bad N by (intro bad_nonce_run) simp_all
    also have "\<dots> = Some (Inr r, (1 + int N, (n1 @ attempts_from b signers il q 1 N) @
                      [SubmitTransaction (signed_builder b signers (q + (1 + int N))) il]))"
      using ok r
      by (subst nonce_loop_unfold)
         (simp add: sign_and_submit_returned [where offset = "1 + int N"] ac_simps)
    finally show ?thesis unfolding sab by (simp add: ac_simps)
  qed
  have part3: "sign_and_submit_builder c ic signers b il n =
              Some (Inl BadNonceError, n1 @ attempts_from b signers il q 1 (nat m + 1))"
    if bad: "\<forall>k\<le>nat m. answers_bad_nonce ic (n1 @ attempts_from b signers il q 1 k)
                      (signed_builder b signers (q + 1 + int k)) il"
  proof -
    have "?L 0 (1, n1) = ?L (0 + nat m) (1 + int (nat m), n1 @ attempts_from b signers il q 1 (nat m))"
      using bad m0 by (intro bad_nonce_run) simp_all
    also have "\<dots> = Some (Inl BadNonceError, (1 + int (nat m) + 1,
                      (n1 @ attempts_from b signers il q 1 (nat m)) @
                      [SubmitTransaction (signed_builder b signers (q + (1 + int (nat m)))) il]))"
    proof -
      from bad have "answers_bad_nonce ic (n1 @ attempts_from b signers il q 1 (nat m))
                      (signed_builder b signers (q + 1 + int (nat m))) il"
        by blast
      then have "answers_bad_nonce ic (n1 @ attempts_from b signers il q 1 (nat m))
                      (signed_builder b signers (q + (1 + int (nat m)))) il"
        by (simp only: add.assoc)
      from sign_and_submit_bad_nonce [OF this] show ?thesis
        using m0 by (subst nonce_loop_unfold) simp
    qed
    finally show ?thesis unfolding sab by (simp add: attempts_from_Suc ac_simps)
  qed
  from part1 part2 part3 show ?thesis by blast
qed

lemma demo_client_init:
  "Client_init (\<lambda>v. ''TESTNET'') ''ISSUER'' 1 None None None None 3 = Inr demo_client"
  by (simp add: Client_init_def SUPPORTED_VERSIONS_def effective_retry_config_def
      RetryConfig_init_def demo_client_def)

theorem nonce_refresh_sequence_witness:
  "sign_and_submit_builder demo_client stale_account_client [demo_sender]
     (get_stellar_builder demo_client demo_sender) None [] =
   Some (Inr ok_result,
         [GetAccountInfo (public_key demo_sender),
          SubmitTransaction
            (signed_builder (get_stellar_builder demo_client demo_sender) [demo_sender] 11) None,
          SubmitTransaction
            (signed_builder (get_stellar_builder demo_client demo_sender) [demo_sender] 12) None])"
proof -
  let ?b = "get_stellar_builder demo_client demo_sender"
  let ?n1 = "[GetAccountInfo (public_key demo_sender)]"
  have m: "max_nonce_refreshes (effective_retry_config None) = 3"
    by (simp add: effective_retry_config_def RetryConfig_init_def)
  have acct: "get_account_info stale_account_client [] (public_key demo_sender) =
      Inr \<lparr> sequence_number = 10, balance = 0 \<rparr>"
    by (simp add: stale_account_client_def)
  have q: "sequence_number \<lparr> sequence_number = 10, balance = 0 \<rparr> = 10" by simp
  have n1: "[] @ [GetAccountInfo (public_key demo_sender)] = ?n1" by simp
  have seq: "\<And>sq. b_sequence (signed_builder ?b [demo_sender] sq) = Some sq"
    by (simp add: signed_builder_def)
  have bad: "\<forall>k<1. answers_bad_nonce stale_account_client
       (?n1 @ attempts_from ?b [demo_sender] None 10 1 k)
       (signed_builder ?b [demo_sender] (10 + 1 + int k)) None"
    by (simp add: answers_bad_nonce_def stale_account_client_def seq bad_nonce_result_def
        bad_nonce_error_def BadNonceError_class_def)
  have ok: "submit_transaction stale_account_client
       (?n1 @ attempts_from ?b [demo_sender] None 10 1 1)
       (signed_builder ?b [demo_sender] (10 + int 1 + 1)) None = Inr ok_result"
    by (simp add: stale_account_client_def seq)
  have r: "bad_nonce_error ok_result = None"
    by (simp add: bad_nonce_error_def ok_result_def)
  from nonce_refresh_sequence [OF demo_client_init m _ acct q n1 refl,
      where b = ?b and il = None and others = "[]"]
  have "\<forall>N r. int N \<le> 3 \<and>
            (\<forall>k<N. answers_bad_nonce stale_account_client
                      (?n1 @ attempts_from ?b [demo_sender] None 10 1 k)
                      (signed_builder ?b [demo_sender] (10 + 1 + int k)) None) \<and>
            submit_transaction stale_account_client
              (?n1 @ attempts_from ?b [demo_sender] None 10 1 N)
              (signed_builder ?b [demo_sender] (10 + int N + 1)) None = Inr r \<and>
            bad_nonce_error r = None \<longrightarrow>
            sign_and_submit_builder demo_client stale_account_client [demo_sender] ?b None [] =
              Some (Inr r, ?n1 @ attempts_from ?b [demo_sender] None 10 1 N @
                      [SubmitTransaction (signed_builder ?b [demo_sender] (10 + int N + 1)) None])"
    by simp
  from this [rule_format, of 1 ok_result] bad ok r
  show ?thesis by (simp add: attempts_from_def)
qed

text \<open>
  Claim C5. One attempt of the loop, made as attempt \<open>i\<close> with the offset and the network
  as they stand. A returned result without a transaction-level error, or with one that is not
  a bad nonce, ends the loop and is returned as it is, the offset unchanged. A returned
  result whose transaction-level error is a bad nonce adds 1 to the offset and is followed by
  the next attempt, while the limit of \<open>max_nonce_refreshes + 1\<close> attempts allows one;
  otherwise \<open>BadNonceError\<close> is raised. An exception of the transport other than
  \<open>BadNonceError\<close> is raised through, without another attempt.
\<close>

theorem nonce_loop_retries_only_bad_nonce:
  assumes init: "Client_init names issuer ai wk gc ep rco kv = Inr c"
    and m: "max_nonce_refreshes (effective_retry_config rco) = m"
    and tx: "signed_builder b signers (q + offset) = tx"
    and n': "n @ [SubmitTransaction tx il] = n'"
  shows "(\<forall>r. submit_transaction ic n tx il = Inr r \<and>
              (tx_error r = None \<or>
               (\<exists>te. tx_error r = Some te \<and> te_tx_error te \<noteq> Some BadNonceError)) \<longrightarrow>
            retry_from (nonce_retry_strategies c) (sign_and_submit ic signers b il q) i (offset, n) =
              Some (Inr r, (offset, n'))) \<and>
         (\<forall>r te. submit_transaction ic n tx il = Inr r \<and> tx_error r = Some te \<and>
              te_tx_error te = Some BadNonceError \<longrightarrow>
            retry_from (nonce_retry_strategies c) (sign_and_submit ic signers b il q) i (offset, n) =
              (if int (Suc i) < m + 1
               then retry_from (nonce_retry_strategies c) (sign_and_submit ic signers b il q)
                      (Suc i) (offset + 1, n')
               else Some (Inl BadNonceError, (offset + 1, n')))) \<and>
         (\<forall>e. submit_transaction ic n tx il = Inl e \<and> e \<noteq> BadNonceError \<longrightarrow>
            retry_from (nonce_retry_strategies c) (sign_and_submit ic signers b il q) i (offset, n) =
              Some (Inl e, (offset, n')))"
proof -
  have strategies: "nonce_retry_strategies c =
      [RetriableErrorsStrategy [BadNonceError_class], LimitStrategy (m + 1)]"
    using Client_init_nonce [OF init] m by simp
  have a: "retry_from (nonce_retry_strategies c) (sign_and_submit ic signers b il q) i (offset, n) =
              Some (Inr r, (offset, n'))"
    if "submit_transaction ic n tx il = Inr r"
      and "tx_error r = None \<or> (\<exists>te. tx_error r = Some te \<and> te_tx_error te \<noteq> Some BadNonceError)"
    for r
  proof -
    from that(2) have "bad_nonce_error r = None"
      by (auto simp: bad_nonce_error_def BadNonceError_class_def split: option.splits)
    with that(1) tx have "sign_and_submit ic signers b il q (offset, n) = (Inr r, (offset, n'))"
      using sign_and_submit_returned [of ic n b signers q offset il r] n' by simp
    then show ?thesis
      unfolding strategies by (subst nonce_loop_unfold) simp
  qed
  have b: "retry_from (nonce_retry_strategies c) (sign_and_submit ic signers b il q) i (offset, n) =
              (if int (Suc i) < m + 1
               then retry_from (nonce_retry_strategies c) (sign_and_submit ic signers b il q)
                      (Suc i) (offset + 1, n')
               else Some (Inl BadNonceError, (offset + 1, n')))"
    if "submit_transaction ic n tx il = Inr r" and "tx_error r = Some te"
      and "te_tx_error te = Some BadNonceError" for r te
  proof -
    from that have "answers_bad_nonce ic n (signed_builder b signers (q + offset)) il"
      using tx by (simp add: answers_bad_nonce_def bad_nonce_error_def BadNonceError_class_def)
    from sign_and_submit_bad_nonce [OF this]
    have "sign_and_submit ic signers b il q (offset, n) = (Inl BadNonceError, (offset + 1, n'))"
      using tx n' by simp
    then show ?thesis
      unfolding strategies by (subst nonce_loop_unfold) auto
  qed
  have c: "retry_from (nonce_retry_strategies c) (sign_and_submit ic signers b il q) i (offset, n) =
              Some (Inl e, (offset, n'))"
    if "submit_transaction ic n tx il = Inl e" and "e \<noteq> BadNonceError" for e
  proof -
    from that(1) have "sign_and_submit ic signers b il q (offset, n) = (Inl e, (offset, n'))"
      using sign_and_submit_raised [of ic n b signers q offset il e] tx n' by simp
    then show ?thesis
      unfolding strategies using that(2) by (subst nonce_loop_unfold) simp
  qed
  from a b c show ?thesis by blast
qed


theorem nonce_loop_retries_only_bad_nonce_witness:
  "retry_from (nonce_retry_strategies demo_client)
     (sign_and_submit stale_account_client [demo_sender]
        (get_stellar_builder demo_client demo_sender) None 10) 0 (1, []) =
   Some (Inr ok_result,
         (2, [SubmitTransaction
                (signed_builder (get_stellar_builder demo_client demo_sender) [demo_sender] 11) None,
              SubmitTransaction
                (signed_builder (get_stellar_builder demo_client demo_sender) [demo_sender] 12) None]))"
proof -
  let ?b = "get_stellar_builder demo_client demo_sender"
  let ?tx1 = "signed_builder ?b [demo_sender] 11"
  let ?tx2 = "signed_builder ?b [demo_sender] 12"
  let ?L = "retry_from (nonce_retry_strategies demo_client)
     (sign_and_submit stale_account_client [demo_sender] ?b None 10)"
  have m: "max_nonce_refreshes (effective_retry_config None) = 3"
    by (simp add: effective_retry_config_def RetryConfig_init_def)
  have seq: "\<And>sq. b_sequence (signed_builder ?b [demo_sender] sq) = Some sq"
    by (simp add: signed_builder_def)
  have first: "submit_transaction stale_account_client [] ?tx1 None = Inr bad_nonce_result \<and>
      tx_error bad_nonce_result = Some \<lparr> te_tx_error = Some BadNonceError, te_op_errors = [] \<rparr> \<and>
      te_tx_error \<lparr> te_tx_error = Some BadNonceError, te_op_errors = [] \<rparr> = Some BadNonceError"
    by (simp add: stale_account_client_def seq bad_nonce_result_def)
  have second: "submit_transaction stale_account_client [SubmitTransaction ?tx1 None] ?tx2 None =
      Inr ok_result \<and> tx_error ok_result = None"
    by (simp add: stale_account_client_def seq ok_result_def)
  have "?L 0 (1, []) = ?L (Suc 0) (1 + 1, [SubmitTransaction ?tx1 None])"
    using nonce_loop_retries_only_bad_nonce [OF demo_client_init m,
        where b = ?b and signers = "[demo_sender]" and q = 10 and offset = 1 and tx = ?tx1
          and n = "[]" and il = None and n' = "[SubmitTransaction ?tx1 None]"
          and ic = stale_account_client and i = 0] first
    by simp
  also have "\<dots> = Some (Inr ok_result, (2, [SubmitTransaction ?tx1 None, SubmitTransaction ?tx2 None]))"
    using nonce_loop_retries_only_bad_nonce [OF demo_client_init m,
        where b = ?b and signers = "[demo_sender]" and q = 10 and offset = 2 and tx = ?tx2
          and n = "[SubmitTransaction ?tx1 None]" and il = None
          and n' = "[SubmitTransaction ?tx1 None, SubmitTransaction ?tx2 None]"
          and ic = stale_account_client and i = "Suc 0"] second
    by simp
  finally show ?thesis .
qed

section \<open>Properties of the earn batches\<close>

lemma concat_partition_list: "concat (partition_list xs k) = (if k = 0 then [] else xs)"
proof (induction xs k rule: partition_list.induct)
  case (1 xs k)
  show ?case
  proof (cases "xs = [] \<or> k = 0")
    case True
    then show ?thesis by (subst partition_list.simps) auto
  next
    case False
    with "1" show ?thesis by (subst partition_list.simps) simp
  qed
qed

lemma op_error_results_earns:
  "op_error_results h errs idx batch = Inr rs \<Longrightarrow> map er_earn rs = batch"
  by (induction batch arbitrary: idx rs) (auto split: if_splits sum.splits)

lemma earn_batch_loop_earns:
  "earn_batch_loop c ic sender channel memo_arg batches succ fl n = Some (Inr (succ', fl'), n') \<Longrightarrow>
   \<exists>xs ys zs. map er_earn succ' = map er_earn succ @ xs \<and>
              map er_earn fl' = map er_earn fl @ ys \<and>
              concat batches = xs @ ys @ zs"
proof (induction batches arbitrary: succ n)
  case Nil
  then show ?case by simp
next
  case (Cons batch rest)
  show ?case
  proof (cases "submit_earn_batch_tx c ic sender batch channel memo_arg n")
    case None
    with Cons.prems show ?thesis by simp
  next
    case (Some a)
    obtain out n1 where a: "a = (out, n1)" by (cases a)
    show ?thesis
    proof (cases out)
      case (Inl e)
      with Cons.prems Some a have "succ' = succ"
        and "fl' = fl @ map (\<lambda>earn. \<lparr> er_earn = earn, er_tx_hash = None, er_error = Some e \<rparr>) batch"
        by (simp_all split: if_splits)
      then show ?thesis
        by (intro exI [of _ "[]"] exI [of _ batch] exI [of _ "concat rest"]) (simp add: comp_def)
    next
      case (Inr result)
      note tx = Some a Inr
      show ?thesis
      proof (cases "tx_error result")
        case None
        let ?succ = "succ @ map (\<lambda>earn. \<lparr> er_earn = earn, er_tx_hash = Some (tx_hash result),
                                         er_error = None \<rparr>) batch"
        from Cons.prems tx None
        have "earn_batch_loop c ic sender channel memo_arg rest ?succ fl n1 = Some (Inr (succ', fl'), n')"
          by simp
        from Cons.IH [OF this] obtain xs ys zs where
          "map er_earn succ' = map er_earn ?succ @ xs" "map er_earn fl' = map er_earn fl @ ys"
          "concat rest = xs @ ys @ zs" by blast
        then show ?thesis
          by (intro exI [of _ "batch @ xs"] exI [of _ ys] exI [of _ zs]) (simp add: comp_def)
      next
        case (Some err)
        show ?thesis
        proof (cases "te_op_errors err \<noteq> []")
          case True
          with Cons.prems tx Some obtain rs where
            rs: "op_error_results (tx_hash result) (te_op_errors err) 0 batch = Inr rs"
            and "succ' = succ" "fl' = fl @ rs"
            by (auto split: sum.splits)
          then show ?thesis using op_error_results_earns [OF rs]
            by (intro exI [of _ "[]"] exI [of _ batch] exI [of _ "concat rest"]) simp
        next
          case False
          with Cons.prems tx Some have "succ' = succ"
            and "fl' = fl @ map (\<lambda>earn. \<lparr> er_earn = earn, er_tx_hash = Some (tx_hash result),
                                           er_error = te_tx_error err \<rparr>) batch"
            by simp_all
          then show ?thesis
            by (intro exI [of _ "[]"] exI [of _ batch] exI [of _ "concat rest"]) (simp add: comp_def)
        qed
      qed
    qed
  qed
qed

lemma sign_and_submit_builder_calls:
  assumes "nonce_retry_strategies c =
     [RetriableErrorsStrategy [BadNonceError_class], LimitStrategy (m + 1)]"
  shows "\<exists>out calls.
     sign_and_submit_builder c ic signers b il n = Some (out, n @ calls) \<and>
     (\<forall>x \<in> set calls. (\<exists>pk. x = GetAccountInfo pk) \<or>
         (\<exists>sq. x = SubmitTransaction (signed_builder b signers sq) il))"
proof (cases signers)
  case Nil
  then show ?thesis
    by (intro exI [of _ "Inl IndexError"] exI [of _ "[]"]) (simp add: sign_and_submit_builder_def)
next
  case (Cons first others)
  show ?thesis
  proof (cases "get_account_info ic n (public_key first)")
    case (Inl e)
    then show ?thesis using Cons
      by (intro exI [of _ "Inl e"] exI [of _ "[GetAccountInfo (public_key first)]"])
         (simp add: sign_and_submit_builder_def Let_def)
  next
    case (Inr info)
    let ?tx = "SubmitTransaction (signed_builder b signers (sequence_number info + 1)) il"
    obtain out offset' more where
      run: "retry_from [RetriableErrorsStrategy [BadNonceError_class], LimitStrategy (m + 1)]
         (sign_and_submit ic signers b il (sequence_number info)) 0
         (1, n @ [GetAccountInfo (public_key first)]) =
           Some (out, (offset', (n @ [GetAccountInfo (public_key first)]) @ ?tx # more))"
      and shape: "\<forall>x \<in> set more. \<exists>sq. x = SubmitTransaction (signed_builder b signers sq) il"
      using nonce_loop_calls [of m ic signers b il "sequence_number info" 0 1
          "n @ [GetAccountInfo (public_key first)]"] by blast
    have "sign_and_submit_builder c ic signers b il n =
            Some (out, n @ (GetAccountInfo (public_key first) # ?tx # more))"
      using run Inr Cons assms
      by (simp add: sign_and_submit_builder_def Let_def retry_def)
    moreover have "\<forall>x \<in> set (GetAccountInfo (public_key first) # ?tx # more).
        (\<exists>pk. x = GetAccountInfo pk) \<or> (\<exists>sq. x = SubmitTransaction (signed_builder b signers sq) il)"
      using shape by auto
    ultimately show ?thesis by blast
  qed
qed

lemma submit_earn_batch_tx_terminates:
  assumes "nonce_retry_strategies c =
     [RetriableErrorsStrategy [BadNonceError_class], LimitStrategy (m + 1)]"
  shows "\<exists>out n'. submit_earn_batch_tx c ic sender batch channel memo_arg n = Some (out, n')"
proof -
  obtain out calls where
    "sign_and_submit_builder c ic (signers_of c sender channel)
       (earn_batch_builder c sender batch channel memo_arg)
       (snd (earn_memo c batch memo_arg)) n = Some (out, n @ calls)"
    using sign_and_submit_builder_calls [OF assms] by blast
  then show ?thesis
    by (cases out) (simp_all add: submit_earn_batch_tx_def)
qed

lemma earn_batch_loop_terminates:
  assumes "nonce_retry_strategies c =
     [RetriableErrorsStrategy [BadNonceError_class], LimitStrategy (m + 1)]"
  shows "\<exists>out n'. earn_batch_loop c ic sender channel memo_arg batches succ fl n = Some (out, n')"
proof (induction batches arbitrary: succ n)
  case Nil
  show ?case by simp
next
  case (Cons batch rest)
  obtain out n1 where
    tx: "submit_earn_batch_tx c ic sender batch channel memo_arg n = Some (out, n1)"
    using submit_earn_batch_tx_terminates [OF assms] by blast
  show ?case
  proof (cases out)
    case (Inl e)
    with tx show ?thesis by simp
  next
    case (Inr result)
    show ?thesis
    proof (cases "tx_error result")
      case None
      with tx Inr Cons.IH show ?thesis by simp
    next
      case (Some err)
      with tx Inr show ?thesis by (simp split: sum.split)
    qed
  qed
qed

lemma submit_earn_batch_terminates:
  assumes "nonce_retry_strategies c =
     [RetriableErrorsStrategy [BadNonceError_class], LimitStrategy (m + 1)]"
  shows "\<exists>out n'. submit_earn_batch c ic sender earns channel memo_arg n = Some (out, n')"
proof -
  obtain out n1 where
    loop: "earn_batch_loop c ic sender channel memo_arg (partition_list earns 100) [] [] n =
             Some (out, n1)"
    using earn_batch_loop_terminates [OF assms] by blast
  show ?thesis
  proof (cases out)
    case (Inl e)
    with loop show ?thesis by (simp add: submit_earn_batch_def)
  next
    case (Inr lists)
    obtain succ fl where "lists = (succ, fl)" by (cases lists)
    with loop Inr show ?thesis by (simp add: submit_earn_batch_def)
  qed
qed

lemma submit_earn_batch_covers:
  assumes "submit_earn_batch c ic sender earns channel memo_arg n = Some (Inr r, n')"
  shows "map er_earn (succeeded r) @ map er_earn (failed r) = earns \<and>
         length (succeeded r) + length (failed r) = length earns"
proof -
  let ?loop = "earn_batch_loop c ic sender channel memo_arg (partition_list earns 100) [] [] n"
  from assms have run: "(case ?loop of
           None \<Rightarrow> None
         | Some (Inl e, n') \<Rightarrow> Some (Inl e, n')
         | Some (Inr (succ, fl), n') \<Rightarrow>
             Some (Inr \<lparr> succeeded = succ,
                        failed = fl @ map (\<lambda>earn. \<lparr> er_earn = earn, er_tx_hash = None,
                                                      er_error = None \<rparr>)
                                        (drop (length succ + length fl) earns) \<rparr>, n')) =
          Some (Inr r, n')"
    unfolding submit_earn_batch_def by (simp split: if_splits)
  obtain succ fl where
    loop: "?loop = Some (Inr (succ, fl), n')"
    and r: "r = \<lparr> succeeded = succ,
                  failed = fl @ map (\<lambda>earn. \<lparr> er_earn = earn, er_tx_hash = None, er_error = None \<rparr>)
                                  (drop (length succ + length fl) earns) \<rparr>"
  proof (cases ?loop)
    case None
    with run show ?thesis by simp
  next
    case (Some a)
    obtain out n1 where a: "a = (out, n1)" by (cases a)
    show ?thesis
    proof (cases out)
      case (Inl e)
      with run Some a show ?thesis by simp
    next
      case (Inr lists)
      obtain succ fl where "lists = (succ, fl)" by (cases lists)
      with run Some a Inr that show ?thesis by simp
    qed
  qed
  from earn_batch_loop_earns [OF loop] obtain xs ys zs where
    xs: "map er_earn succ = xs" and ys: "map er_earn fl = ys"
    and all: "concat (partition_list earns 100) = xs @ ys @ zs"
    by auto
  from all have earns: "earns = xs @ ys @ zs" by (simp add: concat_partition_list)
  have "length succ = length xs" "length fl = length ys"
    using xs ys by (auto dest: arg_cong [where f = length])
  then have "drop (length succ + length fl) earns = zs"
    using earns by simp
  then have parts: "map er_earn (succeeded r) @ map er_earn (failed r) = earns"
    using r xs ys earns by (simp add: comp_def)
  have "length (map er_earn (succeeded r) @ map er_earn (failed r)) = length earns"
    by (simp only: parts)
  then have "length (succeeded r) + length (failed r) = length earns"
    by (simp only: length_append length_map)
  with parts show ?thesis by (rule conjI)
qed

text \<open>
  Claim C1. A call of \<open>submit_earn_batch\<close> on a client made by \<open>Client_init\<close> always
  ends, raising or returning. Whenever it returns a BatchEarnResult, on whatever path (every
  sub-batch succeeded, a sub-batch failed with operation errors or with a transaction error,
  a sub-batch submission raised an \<open>Error\<close>), the earns of \<open>succeeded\<close> followed by
  the earns of \<open>failed\<close> are the input list itself: every input earn is there exactly once,
  in input order within each list, and the two lengths add up to the number of earns.
\<close>

theorem submit_earn_batch_partition:
  "(\<forall>names issuer ai wk gc ep rco kv. Client_init names issuer ai wk gc ep rco kv = Inr c \<longrightarrow>
      (\<exists>out n'. submit_earn_batch c ic sender earns channel memo_arg n = Some (out, n'))) \<and>
   (\<forall>r n'. submit_earn_batch c ic sender earns channel memo_arg n = Some (Inr r, n') \<longrightarrow>
      map er_earn (succeeded r) @ map er_earn (failed r) = earns \<and>
      length (succeeded r) + length (failed r) = length earns)"
proof (intro conjI allI impI)
  fix names issuer ai wk gc ep rco kv
  assume "Client_init names issuer ai wk gc ep rco kv = Inr c"
  from submit_earn_batch_terminates [OF Client_init_nonce [OF this]]
  show "\<exists>out n'. submit_earn_batch c ic sender earns channel memo_arg n = Some (out, n')" .
next
  fix r n'
  assume run: "submit_earn_batch c ic sender earns channel memo_arg n = Some (Inr r, n')"
  from submit_earn_batch_covers [OF run]
  show "map er_earn (succeeded r) @ map er_earn (failed r) = earns" ..
  from submit_earn_batch_covers [OF run]
  show "length (succeeded r) + length (failed r) = length earns" ..
qed

lemma demo_earn_batch_run:
  "submit_earn_batch demo_client stale_account_client demo_sender
     [demo_earn ''GA'' 5, demo_earn ''GB'' 7] None None [] =
   Some (Inr \<lparr> succeeded =
                 [\<lparr> er_earn = demo_earn ''GA'' 5, er_tx_hash = Some ''HASH'', er_error = None \<rparr>,
                  \<lparr> er_earn = demo_earn ''GB'' 7, er_tx_hash = Some ''HASH'', er_error = None \<rparr>],
               failed = [] \<rparr>,
         [GetAccountInfo (public_key demo_sender),
          SubmitTransaction
            (signed_builder
               (earn_batch_builder demo_client demo_sender
                  [demo_earn ''GA'' 5, demo_earn ''GB'' 7] None None) [demo_sender] 11) None,
          SubmitTransaction
            (signed_builder
               (earn_batch_builder demo_client demo_sender
                  [demo_earn ''GA'' 5, demo_earn ''GB'' 7] None None) [demo_sender] 12) None])"
  by code_simp

theorem submit_earn_batch_partition_witness:
  "map er_earn
     (succeeded \<lparr> succeeded =
                 [\<lparr> er_earn = demo_earn ''GA'' 5, er_tx_hash = Some ''HASH'', er_error = None \<rparr>,
                  \<lparr> er_earn = demo_earn ''GB'' 7, er_tx_hash = Some ''HASH'', er_error = None \<rparr>],
               failed = [] \<rparr>) @
   map er_earn
     (failed \<lparr> succeeded =
                 [\<lparr> er_earn = demo_earn ''GA'' 5, er_tx_hash = Some ''HASH'', er_error = None \<rparr>,
                  \<lparr> er_earn = demo_earn ''GB'' 7, er_tx_hash = Some ''HASH'', er_error = None \<rparr>],
               failed = [] \<rparr>) =
   [demo_earn ''GA'' 5, demo_earn ''GB'' 7] \<and>
   (\<exists>out n'. submit_earn_batch demo_client stale_account_client demo_sender
       [demo_earn ''GA'' 5, demo_earn ''GB'' 7] None None [] = Some (out, n'))"
proof -
  note inst = submit_earn_batch_partition [of demo_client stale_account_client demo_sender
      "[demo_earn ''GA'' 5, demo_earn ''GB'' 7]" None None "[]"]
  from inst [THEN conjunct2, rule_format, OF demo_earn_batch_run, THEN conjunct1]
    inst [THEN conjunct1, rule_format, OF demo_client_init]
  show ?thesis by (rule conjI)
qed

lemma op_error_results_short:
  "length errs < idx + length batch \<Longrightarrow> batch \<noteq> [] \<Longrightarrow>
   op_error_results h errs idx batch = Inl IndexError"
proof (induction batch arbitrary: idx)
  case Nil
  then show ?case by simp
next
  case (Cons e rest)
  show ?case
  proof (cases "idx < length errs")
    case False
    then show ?thesis by simp
  next
    case True
    with Cons.prems have "length errs < Suc idx + length rest" and "rest \<noteq> []" by auto
    from Cons.IH [OF this] True show ?thesis by simp
  qed
qed

lemma op_error_results_too_few:
  "length errs < length batch \<Longrightarrow> op_error_results h errs 0 batch = Inl IndexError"
  by (rule op_error_results_short) auto

lemma op_error_results_positional:
  "idx + length batch \<le> length errs \<Longrightarrow>
   op_error_results h errs idx batch =
     Inr (map (\<lambda>(i, e). \<lparr> er_earn = e, er_tx_hash = Some h, er_error = Some (errs ! i) \<rparr>)
            (zip [idx..<idx + length batch] batch))"
proof (induction batch arbitrary: idx)
  case Nil
  show ?case by simp
next
  case (Cons e rest)
  then have "Suc idx + length rest \<le> length errs" by simp
  from Cons.IH [OF this] Cons.prems show ?case
    by (simp add: upt_conv_Cons del: upt_Suc)
qed

lemma earn_batch_loop_raises_non_Error:
  "earn_batch_loop c ic sender channel memo_arg batches succ fl n = Some (Inl e, n') \<Longrightarrow>
   \<not> is_Error e"
proof (induction batches arbitrary: succ n)
  case Nil
  then show ?case by simp
next
  case (Cons batch rest)
  show ?case
  proof (cases "submit_earn_batch_tx c ic sender batch channel memo_arg n")
    case None
    with Cons.prems show ?thesis by simp
  next
    case (Some a)
    obtain out n1 where a: "a = (out, n1)" by (cases a)
    show ?thesis
    proof (cases out)
      case (Inl x)
      with Cons.prems Some a show ?thesis by (simp split: if_splits)
    next
      case (Inr result)
      note tx = Some a Inr
      show ?thesis
      proof (cases "tx_error result")
        case None
        with Cons.prems tx Cons.IH show ?thesis by simp
      next
        case (Some err)
        show ?thesis
        proof (cases "length (te_op_errors err) < length batch")
          case True
          with Cons.prems tx Some show ?thesis
            by (auto simp: op_error_results_too_few split: if_splits)
        next
          case False
          then have "0 + length batch \<le> length (te_op_errors err)" by simp
          from op_error_results_positional [OF this] Cons.prems tx Some show ?thesis
            by (simp split: if_splits)
        qed
      qed
    qed
  qed
qed

text \<open>
  Claim C10. In the loop over the sub-batches, an exception raised by the submission of a
  sub-batch is caught exactly when it is an \<open>Error\<close>: it then becomes the error of a failed
  result for every earn of the sub-batch. Any other exception leaves the loop as it is, and so
  does the \<open>IndexError\<close> of an operation-error list shorter than the sub-batch. Every
  exception that leaves the loop is not an \<open>Error\<close>, and it leaves \<open>submit_earn_batch\<close>
  too, which then returns no BatchEarnResult.
\<close>

theorem earn_batch_catches_only_Error:
  "(\<forall>e n'. submit_earn_batch_tx c ic sender batch channel memo_arg n = Some (Inl e, n') \<longrightarrow>
      earn_batch_loop c ic sender channel memo_arg (batch # rest) succ fl n =
        (if is_Error e
         then Some (Inr (succ, fl @ map (\<lambda>earn. \<lparr> er_earn = earn, er_tx_hash = None,
                                                 er_error = Some e \<rparr>) batch), n')
         else Some (Inl e, n'))) \<and>
   (\<forall>result err n'.
      submit_earn_batch_tx c ic sender batch channel memo_arg n = Some (Inr result, n') \<and>
      tx_error result = Some err \<and> te_op_errors err \<noteq> [] \<and>
      length (te_op_errors err) < length batch \<longrightarrow>
      earn_batch_loop c ic sender channel memo_arg (batch # rest) succ fl n =
        Some (Inl IndexError, n')) \<and>
   (\<forall>e n'. earn_batch_loop c ic sender channel memo_arg batches succ fl n = Some (Inl e, n') \<longrightarrow>
      \<not> is_Error e) \<and>
   (\<forall>e n'. earn_batch_loop c ic sender channel memo_arg (partition_list earns 100) [] [] n =
              Some (Inl e, n') \<and>
            kin_version c \<in> set SUPPORTED_VERSIONS \<and>
            (invoices_of earns = [] \<or>
             (0 < app_index c \<and> length (invoices_of earns) = length earns \<and> \<not> truthy memo_arg)) \<longrightarrow>
      submit_earn_batch c ic sender earns channel memo_arg n = Some (Inl e, n'))"
proof (intro conjI allI impI)
  fix e n'
  assume "submit_earn_batch_tx c ic sender batch channel memo_arg n = Some (Inl e, n')"
  then show "earn_batch_loop c ic sender channel memo_arg (batch # rest) succ fl n =
        (if is_Error e
         then Some (Inr (succ, fl @ map (\<lambda>earn. \<lparr> er_earn = earn, er_tx_hash = None,
                                                 er_error = Some e \<rparr>) batch), n')
         else Some (Inl e, n'))"
    by simp
next
  fix result err n'
  assume "submit_earn_batch_tx c ic sender batch channel memo_arg n = Some (Inr result, n') \<and>
      tx_error result = Some err \<and> te_op_errors err \<noteq> [] \<and>
      length (te_op_errors err) < length batch"
  then show "earn_batch_loop c ic sender channel memo_arg (batch # rest) succ fl n =
        Some (Inl IndexError, n')"
    by (simp add: op_error_results_too_few)
next
  fix e n'
  assume "earn_batch_loop c ic sender channel memo_arg batches succ fl n = Some (Inl e, n')"
  then show "\<not> is_Error e" by (rule earn_batch_loop_raises_non_Error)
next
  fix e n'
  assume "earn_batch_loop c ic sender channel memo_arg (partition_list earns 100) [] [] n =
              Some (Inl e, n') \<and>
            kin_version c \<in> set SUPPORTED_VERSIONS \<and>
            (invoices_of earns = [] \<or>
             (0 < app_index c \<and> length (invoices_of earns) = length earns \<and> \<not> truthy memo_arg))"
  then show "submit_earn_batch c ic sender earns channel memo_arg n = Some (Inl e, n')"
    by (auto simp: submit_earn_batch_def)
qed

lemma demo_partition: "partition_list demo_batch 100 = [demo_batch]"
  by code_simp

lemma demo_tx_rpc_error:
  "submit_earn_batch_tx demo_client (answering_client (Inl RpcError)) demo_sender demo_batch
     None None [] = Some (Inl RpcError, demo_batch_log demo_batch)"
  by code_simp

lemma demo_tx_too_few:
  "submit_earn_batch_tx demo_client (answering_client (Inr too_few_op_errors)) demo_sender
     demo_batch None None [] = Some (Inr too_few_op_errors, demo_batch_log demo_batch)"
  by code_simp

theorem earn_batch_catches_only_Error_witness:
  "earn_batch_loop demo_client (answering_client (Inl RpcError)) demo_sender None None
     [demo_batch] [] [] [] = Some (Inl RpcError, demo_batch_log demo_batch) \<and>
   earn_batch_loop demo_client (answering_client (Inr too_few_op_errors)) demo_sender None None
     [demo_batch] [] [] [] = Some (Inl IndexError, demo_batch_log demo_batch) \<and>
   \<not> is_Error RpcError \<and>
   submit_earn_batch demo_client (answering_client (Inl RpcError)) demo_sender demo_batch
     None None [] = Some (Inl RpcError, demo_batch_log demo_batch)"
proof -
  note rpc = earn_batch_catches_only_Error [of demo_client "answering_client (Inl RpcError)"
      demo_sender demo_batch None None "[]" "[]" "[]" "[]" "[demo_batch]" demo_batch]
  note few = earn_batch_catches_only_Error [of demo_client
      "answering_client (Inr too_few_op_errors)"
      demo_sender demo_batch None None "[]" "[]" "[]" "[]" "[demo_batch]" demo_batch]
  have loop: "earn_batch_loop demo_client (answering_client (Inl RpcError)) demo_sender None None
     [demo_batch] [] [] [] = Some (Inl RpcError, demo_batch_log demo_batch)"
    using rpc [THEN conjunct1, rule_format, OF demo_tx_rpc_error] by simp
  have shape: "tx_error too_few_op_errors =
        Some \<lparr> te_tx_error = Some TransactionMalformedError,
               te_op_errors = [InsufficientBalanceError] \<rparr> \<and>
      te_op_errors \<lparr> te_tx_error = Some TransactionMalformedError,
                     te_op_errors = [InsufficientBalanceError] \<rparr> \<noteq> [] \<and>
      length (te_op_errors \<lparr> te_tx_error = Some TransactionMalformedError,
                             te_op_errors = [InsufficientBalanceError] \<rparr>) < length demo_batch"
    by (simp add: too_few_op_errors_def demo_batch_def)
  have index: "earn_batch_loop demo_client (answering_client (Inr too_few_op_errors)) demo_sender
     None None [demo_batch] [] [] [] = Some (Inl IndexError, demo_batch_log demo_batch)"
    using few [THEN conjunct2, THEN conjunct1, rule_format, OF conjI, OF demo_tx_too_few shape] .
  have non: "\<not> is_Error RpcError"
    using rpc [THEN conjunct2, THEN conjunct2, THEN conjunct1, rule_format, OF loop] .
  have top: "submit_earn_batch demo_client (answering_client (Inl RpcError)) demo_sender
     demo_batch None None [] = Some (Inl RpcError, demo_batch_log demo_batch)"
  proof -
    have valid: "kin_version demo_client \<in> set SUPPORTED_VERSIONS \<and>
        (invoices_of demo_batch = [] \<or>
         (0 < app_index demo_client \<and> length (invoices_of demo_batch) = length demo_batch \<and>
          \<not> truthy None))"
      by (simp add: demo_client_def SUPPORTED_VERSIONS_def invoices_of_def
          demo_batch_def demo_earn_def List.map_filter_def)
    have loop': "earn_batch_loop demo_client (answering_client (Inl RpcError)) demo_sender
        None None (partition_list demo_batch 100) [] [] [] =
          Some (Inl RpcError, demo_batch_log demo_batch)"
      using loop by (simp only: demo_partition)
    from rpc [THEN conjunct2, THEN conjunct2, THEN conjunct2, rule_format,
        OF conjI, OF loop' valid]
    show ?thesis .
  qed
  from loop index non top show ?thesis by blast
qed

lemma invoices_of_nonempty:
  "(invoices_of earns \<noteq> []) = list_ex (\<lambda>e. earn_invoice e \<noteq> None) earns"
  by (induction earns) (auto simp: invoices_of_def List.map_filter_def)

lemma invoices_of_length_le: "length (invoices_of earns) \<le> length earns"
  by (simp add: invoices_of_def List.map_filter_def)

lemma length_filter_all: "(length (filter P xs) = length xs) = list_all P xs"
proof (induction xs)
  case Nil
  show ?case by simp
next
  case (Cons x xs)
  show ?case
  proof (cases "P x")
    case True
    with Cons show ?thesis by simp
  next
    case False
    have "length (filter P xs) < Suc (length xs)" by (simp add: less_Suc_eq_le)
    then have "length (filter P xs) \<noteq> Suc (length xs)" by (rule less_imp_neq)
    with False show ?thesis by simp
  qed
qed

lemma invoices_of_all:
  "(length (invoices_of earns) = length earns) = list_all (\<lambda>e. earn_invoice e \<noteq> None) earns"
  by (simp add: invoices_of_def List.map_filter_def length_filter_all)

text \<open>
  Claim C6. When some earns carry an invoice and some do not, or an invoice is present and
  the app index is not above zero, or a non-empty memo comes with invoices,
  \<open>submit_earn_batch\<close> raises and leaves the network as it was: no account was fetched
  and nothing was submitted. On a client of a supported version (which is what
  \<open>Client_init\<close> makes) the exception is a \<open>ValueError\<close>.
\<close>

theorem submit_earn_batch_validation:
  assumes "(list_ex (\<lambda>e. earn_invoice e \<noteq> None) earns \<and>
            list_ex (\<lambda>e. earn_invoice e = None) earns) \<or>
           (list_ex (\<lambda>e. earn_invoice e \<noteq> None) earns \<and> app_index c \<le> 0) \<or>
           (truthy memo_arg \<and> list_ex (\<lambda>e. earn_invoice e \<noteq> None) earns)"
  shows "\<exists>e. submit_earn_batch c ic sender earns channel memo_arg n = Some (Inl e, n) \<and>
             (kin_version c \<in> set SUPPORTED_VERSIONS \<longrightarrow> (\<exists>msg. e = ValueError msg))"
proof -
  from assms have some: "invoices_of earns \<noteq> []"
    by (auto simp: invoices_of_nonempty)
  from assms have "app_index c \<le> 0 \<or> length (invoices_of earns) \<noteq> length earns \<or> truthy memo_arg"
    by (auto simp: invoices_of_all list_all_iff list_ex_iff)
  with some show ?thesis
    by (auto simp: submit_earn_batch_def)
qed

theorem submit_earn_batch_validation_witness:
  "(\<exists>e. submit_earn_batch demo_client stale_account_client demo_sender
          [invoiced_earn, demo_earn ''GA'' 5] None None [] = Some (Inl e, []) \<and>
        (kin_version demo_client \<in> set SUPPORTED_VERSIONS \<longrightarrow> (\<exists>msg. e = ValueError msg))) \<and>
   (\<exists>e. submit_earn_batch (demo_client \<lparr> app_index := 0 \<rparr>) stale_account_client demo_sender
          [invoiced_earn] None None [] = Some (Inl e, []) \<and>
        (kin_version (demo_client \<lparr> app_index := 0 \<rparr>) \<in> set SUPPORTED_VERSIONS \<longrightarrow>
           (\<exists>msg. e = ValueError msg))) \<and>
   (\<exists>e. submit_earn_batch demo_client stale_account_client demo_sender
          [invoiced_earn] None (Some ''thanks'') [] = Some (Inl e, []) \<and>
        (kin_version demo_client \<in> set SUPPORTED_VERSIONS \<longrightarrow> (\<exists>msg. e = ValueError msg)))"
proof (intro conjI)
  have mixed: "(list_ex (\<lambda>e. earn_invoice e \<noteq> None) [invoiced_earn, demo_earn ''GA'' 5] \<and>
            list_ex (\<lambda>e. earn_invoice e = None) [invoiced_earn, demo_earn ''GA'' 5]) \<or>
           (list_ex (\<lambda>e. earn_invoice e \<noteq> None) [invoiced_earn, demo_earn ''GA'' 5] \<and>
            app_index demo_client \<le> 0) \<or>
           (truthy None \<and> list_ex (\<lambda>e. earn_invoice e \<noteq> None) [invoiced_earn, demo_earn ''GA'' 5])"
    by (simp add: invoiced_earn_def demo_earn_def)
  from submit_earn_batch_validation [OF mixed]
  show "\<exists>e. submit_earn_batch demo_client stale_account_client demo_sender
          [invoiced_earn, demo_earn ''GA'' 5] None None [] = Some (Inl e, []) \<and>
        (kin_version demo_client \<in> set SUPPORTED_VERSIONS \<longrightarrow> (\<exists>msg. e = ValueError msg))" .
  have no_app: "(list_ex (\<lambda>e. earn_invoice e \<noteq> None) [invoiced_earn] \<and>
            list_ex (\<lambda>e. earn_invoice e = None) [invoiced_earn]) \<or>
           (list_ex (\<lambda>e. earn_invoice e \<noteq> None) [invoiced_earn] \<and>
            app_index (demo_client \<lparr> app_index := 0 \<rparr>) \<le> 0) \<or>
           (truthy None \<and> list_ex (\<lambda>e. earn_invoice e \<noteq> None) [invoiced_earn])"
    by (simp add: invoiced_earn_def)
  from submit_earn_batch_validation [OF no_app]
  show "\<exists>e. submit_earn_batch (demo_client \<lparr> app_index := 0 \<rparr>) stale_account_client demo_sender
          [invoiced_earn] None None [] = Some (Inl e, []) \<and>
        (kin_version (demo_client \<lparr> app_index := 0 \<rparr>) \<in> set SUPPORTED_VERSIONS \<longrightarrow>
           (\<exists>msg. e = ValueError msg))" .
  have both: "(list_ex (\<lambda>e. earn_invoice e \<noteq> None) [invoiced_earn] \<and>
            list_ex (\<lambda>e. earn_invoice e = None) [invoiced_earn]) \<or>
           (list_ex (\<lambda>e. earn_invoice e \<noteq> None) [invoiced_earn] \<and>
            app_index demo_client \<le> 0) \<or>
           (truthy (Some ''thanks'') \<and> list_ex (\<lambda>e. earn_invoice e \<noteq> None) [invoiced_earn])"
    by (simp add: invoiced_earn_def)
  from submit_earn_batch_validation [OF both]
  show "\<exists>e. submit_earn_batch demo_client stale_account_client demo_sender
          [invoiced_earn] None (Some ''thanks'') [] = Some (Inl e, []) \<and>
        (kin_version demo_client \<in> set SUPPORTED_VERSIONS \<longrightarrow> (\<exists>msg. e = ValueError msg))" .
qed

text \<open>
  Claim C3, as stated, fails: when the transport answers the submission of a sub-batch with
  invoice errors, \<open>submit_earn_batch\<close> returns a BatchEarnResult, in which the error
  raised for them is the error of every earn of the sub-batch.
\<close>

theorem invoice_errors_raised_counterexample:
  "submit_earn_batch demo_client (answering_client (Inr invoice_error_result)) demo_sender
     demo_batch None None [] =
   Some (Inr \<lparr> succeeded = [],
               failed =
                 [\<lparr> er_earn = demo_earn ''GA'' 5, er_tx_hash = None,
                    er_error = Some (Error ''unexpected invoice errors present'') \<rparr>,
                  \<lparr> er_earn = demo_earn ''GB'' 7, er_tx_hash = None,
                    er_error = Some (Error ''unexpected invoice errors present'') \<rparr>] \<rparr>,
         demo_batch_log demo_batch)"
  by code_simp

text \<open>
  Claim C3, amended. When the coordinator returns a result with invoice errors for a
  sub-batch, \<open>submit_earn_batch_tx\<close> raises the \<open>Error\<close> "unexpected invoice errors
  present"; the loop of \<open>submit_earn_batch\<close> catches it, ends, and records it, without a
  transaction hash, as the error of a failed result for every earn of that sub-batch. The
  error is not raised to the caller.
\<close>

theorem invoice_errors_fail_the_batch:
  assumes "length batch \<le> 100"
    and "sign_and_submit_builder c ic (signers_of c sender channel)
           (earn_batch_builder c sender batch channel memo_arg)
           (snd (earn_memo c batch memo_arg)) n = Some (Inr result, n')"
    and "invoice_errors result \<noteq> []"
  shows "submit_earn_batch_tx c ic sender batch channel memo_arg n =
           Some (Inl (Error ''unexpected invoice errors present''), n') \<and>
         earn_batch_loop c ic sender channel memo_arg (batch # rest) succ fl n =
           Some (Inr (succ, fl @ map (\<lambda>earn. \<lparr> er_earn = earn, er_tx_hash = None,
                        er_error = Some (Error ''unexpected invoice errors present'') \<rparr>) batch),
                 n')"
proof -
  from assms have tx: "submit_earn_batch_tx c ic sender batch channel memo_arg n =
           Some (Inl (Error ''unexpected invoice errors present''), n')"
    by (simp add: submit_earn_batch_tx_def)
  then show ?thesis by simp
qed

lemma demo_invoice_error_submission:
  "sign_and_submit_builder demo_client (answering_client (Inr invoice_error_result))
     (signers_of demo_client demo_sender None)
     (earn_batch_builder demo_client demo_sender demo_batch None None)
     (snd (earn_memo demo_client demo_batch None)) [] =
   Some (Inr invoice_error_result, demo_batch_log demo_batch)"
  by code_simp

theorem invoice_errors_fail_the_batch_witness:
  "submit_earn_batch_tx demo_client (answering_client (Inr invoice_error_result)) demo_sender
     demo_batch None None [] =
     Some (Inl (Error ''unexpected invoice errors present''), demo_batch_log demo_batch) \<and>
   earn_batch_loop demo_client (answering_client (Inr invoice_error_result)) demo_sender
     None None [demo_batch] [] [] [] =
     Some (Inr ([], [] @ map (\<lambda>earn. \<lparr> er_earn = earn, er_tx_hash = None,
                        er_error = Some (Error ''unexpected invoice errors present'') \<rparr>)
                      demo_batch),
           demo_batch_log demo_batch)"
proof -
  have len: "length demo_batch \<le> 100" by (simp add: demo_batch_def)
  have errs: "invoice_errors invoice_error_result \<noteq> []"
    by (simp add: invoice_error_result_def)
  from invoice_errors_fail_the_batch [OF len demo_invoice_error_submission errs]
  show ?thesis .
qed

text \<open>
  Claim C4 at a sub-batch of one earn answered with two operation errors: no fault is
  raised, the first operation error becomes the earn's error and the second is dropped.
\<close>

theorem extra_op_errors_accepted:
  "submit_earn_batch demo_client (answering_client (Inr extra_op_errors)) demo_sender
     [demo_earn ''GA'' 5] None None [] =
   Some (Inr \<lparr> succeeded = [],
               failed =
                 [\<lparr> er_earn = demo_earn ''GA'' 5, er_tx_hash = Some ''HASH'',
                    er_error = Some InsufficientBalanceError \<rparr>] \<rparr>,
         demo_batch_log [demo_earn ''GA'' 5])"
  by code_simp






lemma invoice_payment_constructed:
  "Payment_init demo_sender \<lparr> stellar_address = ''GD'' \<rparr> SPEND 3 None
     (Some (Invoice [''item''])) None = Inr invoice_payment"
  by (simp add: Payment_init_def invoice_payment_def)



text \<open>
  Claim C9. When the result the coordinator returns has a transaction-level error with a
  non-empty list of operation errors, \<open>submit_payment\<close> raises the single operation error
  if the list has exactly one entry, and a generic \<open>Error\<close> otherwise. The outcome is the
  same whatever the whole-transaction error and the invoice errors of that result are.
\<close>

theorem payment_operation_error_first:
  assumes "kin_version c \<in> set SUPPORTED_VERSIONS"
    and "\<not> (pay_invoice p \<noteq> None \<and> app_index c \<le> 0)"
    and "sign_and_submit_builder c ic (signers_of c (pay_sender p) (pay_channel p))
           (payment_builder c p) (snd (payment_memo c p)) n = Some (Inr result, n')"
    and "tx_error result = Some te"
    and "te_op_errors te \<noteq> []"
  shows "submit_payment c ic p n =
           Some (if length (te_op_errors te) = 1 then Inl (hd (te_op_errors te))
                 else Inl (Error (''invalid number of operation errors, expected 0 or 1, got '' @
                                  str_nat (length (te_op_errors te)))),
                 n') \<and>
         (\<forall>x ies. payment_outcome
                     (result \<lparr> tx_error := Some (te \<lparr> te_tx_error := x \<rparr>),
                               invoice_errors := ies \<rparr>) =
                   payment_outcome result)"
proof -
  have outcome: "payment_outcome result =
      (if length (te_op_errors te) = 1 then Inl (hd (te_op_errors te))
       else Inl (Error (''invalid number of operation errors, expected 0 or 1, got '' @
                        str_nat (length (te_op_errors te)))))"
    using assms(4,5) by (simp add: payment_outcome_def Let_def)
  have "submit_payment c ic p n = Some (payment_outcome result, n')"
    using assms(1-3) by (auto simp: submit_payment_def)
  moreover have "\<forall>x ies. payment_outcome
                     (result \<lparr> tx_error := Some (te \<lparr> te_tx_error := x \<rparr>),
                               invoice_errors := ies \<rparr>) =
                   payment_outcome result"
    using assms(5) by (simp add: outcome) (simp add: payment_outcome_def Let_def)
  ultimately show ?thesis by (simp add: outcome)
qed

lemma demo_all_errors_submission:
  "sign_and_submit_builder demo_client (answering_client (Inr all_errors_result))
     (signers_of demo_client (pay_sender invoice_payment) (pay_channel invoice_payment))
     (payment_builder demo_client invoice_payment)
     (snd (payment_memo demo_client invoice_payment)) [] =
   Some (Inr all_errors_result,
         [GetAccountInfo (public_key demo_sender),
          SubmitTransaction
            (signed_builder (payment_builder demo_client invoice_payment) [demo_sender] 11)
            (Some [Invoice [''item'']])])"
  by code_simp

theorem payment_operation_error_first_witness:
  "submit_payment demo_client (answering_client (Inr all_errors_result)) invoice_payment [] =
   Some (Inl InsufficientBalanceError,
         [GetAccountInfo (public_key demo_sender),
          SubmitTransaction
            (signed_builder (payment_builder demo_client invoice_payment) [demo_sender] 11)
            (Some [Invoice [''item'']])])"
proof -
  have version: "kin_version demo_client \<in> set SUPPORTED_VERSIONS"
    by (simp add: demo_client_def SUPPORTED_VERSIONS_def)
  have valid: "\<not> (pay_invoice invoice_payment \<noteq> None \<and> app_index demo_client \<le> 0)"
    by (simp add: demo_client_def)
  have te: "tx_error all_errors_result =
      Some \<lparr> te_tx_error = Some TransactionMalformedError,
             te_op_errors = [InsufficientBalanceError] \<rparr>"
    by (simp add: all_errors_result_def)
  have ops: "te_op_errors \<lparr> te_tx_error = Some TransactionMalformedError,
                            te_op_errors = [InsufficientBalanceError] \<rparr> \<noteq> []"
    by simp
  from payment_operation_error_first [OF version valid demo_all_errors_submission te ops,
      THEN conjunct1]
  show ?thesis by simp
qed

end
